theory Spec2Isabelle
  imports Complex_Main "HOL-Library.Log_Nat"
begin

text \<open>
  A model of the class \<open>ParallelEnv\<close> of \<^verbatim>\<open>polish/env/parallel_env.py\<close>: the object that
  runs a primary rollout every sampling step, decides whether to branch search rollouts
  off it, and aggregates the buffers. The object's attributes are a record and every
  method is a function from the object before the call to the object after it; a method
  that can raise returns a sum, with the exception on the left. The two rollout sources
  (class \<open>MCTSEnv\<close>), numpy's element conversion and the floating-point product of the
  constructor are not part of the file that is modelled; they are parameters.
\<close>

section \<open>Python and numpy primitives used by \<open>polish/env/parallel_env.py\<close>\<close>

text \<open>
  The exceptions the orchestrator's own statements can raise: an out-of-range subscript;
  a division or modulo by zero; an integer too large for a float, or \<^verbatim>\<open>int()\<close> of an
  infinity (\<open>OverflowError\<close>); \<^verbatim>\<open>int()\<close> of a NaN (\<open>ValueError\<close>);
  \<^verbatim>\<open>os.path.join(None, 'norm')\<close> or a subscript on an object that has none
  (\<open>TypeError\<close>); a checkpoint file that cannot be opened (\<open>IOError\<close>) or is no pickle
  (\<open>UnpicklingError\<close>); a dictionary without the key asked for (\<open>KeyError\<close>).
  \<open>OtherError\<close> stands for any other exception a collaborator's constructor raises.
\<close>

datatype py_error =
  IndexError | ZeroDivisionError | OverflowError | ValueError | TypeError | IOError
  | UnpicklingError | KeyError | OtherError

text \<open>
  \<^verbatim>\<open>xs[i]\<close>: an index below zero is counted from the end of the sequence.
\<close>

definition py_index :: "'a list \<Rightarrow> int \<Rightarrow> py_error + 'a" where
  "py_index xs i =
     (if 0 \<le> i \<and> i < int (length xs) then Inr (xs ! nat i)
      else if i < 0 \<and> 0 \<le> i + int (length xs) then Inr (xs ! nat (i + int (length xs)))
      else Inl IndexError)"

text \<open>
  \<^verbatim>\<open>a % b\<close> on Python integers: the result has the sign of the divisor, as
  \<open>mod\<close> on \<open>int\<close> has; a zero divisor raises.
\<close>

definition py_mod :: "int \<Rightarrow> int \<Rightarrow> py_error + int" where
  "py_mod a b = (if b = 0 then Inl ZeroDivisionError else Inr (a mod b))"

text \<open>
  A Python float is a double: a finite value, which is a rational number, an infinity or
  a NaN. \<^verbatim>\<open>int(x)\<close> on a finite float drops the fractional part (rounds toward zero);
  on an infinity it raises \<open>OverflowError\<close>, on a NaN \<open>ValueError\<close>.
\<close>

datatype pyfloat = Finite rat | PosInf | NegInf | NaN

definition py_int :: "pyfloat \<Rightarrow> py_error + int" where
  "py_int x =
     (case x of
        Finite r \<Rightarrow> Inr (if 0 \<le> r then \<lfloor>r\<rfloor> else \<lceil>r\<rceil>)
      | PosInf \<Rightarrow> Inl OverflowError
      | NegInf \<Rightarrow> Inl OverflowError
      | NaN \<Rightarrow> Inl ValueError)"

text \<open>
  \<^verbatim>\<open>int(l)\<close> on a value that is a Python integer already (the episode lengths the
  rollout source records are step counts) gives the same integer.
\<close>

definition int_of_int :: "int \<Rightarrow> int" where
  "int_of_int l = l"

subsection \<open>Double-precision arithmetic\<close>

text \<open>
  Line 260 divides in double precision. A double has a significand of 53 bits and a
  binary exponent between -1022 and 1023; the result of an operation is the exact result
  rounded to the nearest double, a tie going to the one whose last bit is 0.

  \<open>binade x\<close> is the exponent of a non-zero \<open>x\<close>: the integer \<open>e\<close> with
  \<open>2^e \<le> |x| < 2^(e+1)\<close>.
\<close>

definition binade :: "rat \<Rightarrow> int" where
  "binade x =
     (let (a, b) = quotient_of \<bar>x\<bar>; e = bitlen a - bitlen b
      in if 2 powi e \<le> \<bar>x\<bar> then e else e - 1)"

definition round_half_even :: "rat \<Rightarrow> int" where
  "round_half_even x =
     (let f = \<lfloor>x\<rfloor>; r = x - of_int f
      in if r < 1 / 2 then f else if 1 / 2 < r then f + 1
         else if even f then f else f + 1)"

text \<open>
  Rounding to the nearest double, with no upper limit on the exponent (the operations
  below treat results that are too large). The doubles next to \<open>x\<close> are the multiples of
  \<open>2^(e - 52)\<close>, where \<open>e\<close> is the exponent of \<open>x\<close>, or -1022 if that is larger (the
  subnormal range).
\<close>

definition round_double :: "rat \<Rightarrow> rat" where
  "round_double x =
     (if x = 0 then 0
      else (let q = max (binade x) (- 1022) - 52
            in of_int (round_half_even (x / 2 powi q)) * 2 powi q))"

text \<open>
  \<^verbatim>\<open>float(a)\<close> for a Python integer \<open>a\<close>, also the conversion of an integer operand of
  a float operation: the nearest double, or \<open>OverflowError\<close> when that is beyond the
  largest double.
\<close>

definition py_float :: "int \<Rightarrow> py_error + rat" where
  "py_float a =
     (let x = round_double (of_int a)
      in if 2 ^ 1024 \<le> \<bar>x\<bar> then Inl OverflowError else Inr x)"

text \<open>
  \<^verbatim>\<open>x / b\<close> for a finite float \<open>x\<close> and an integer \<open>b\<close>. The quotient of a double by
  an integer that is not zero is never too large for a double.
\<close>

definition float_truediv :: "rat \<Rightarrow> int \<Rightarrow> py_error + rat" where
  "float_truediv x b =
     (case py_float b of
        Inl e \<Rightarrow> Inl e
      | Inr y \<Rightarrow> if y = 0 then Inl ZeroDivisionError else Inr (round_double (x / y)))"

text \<open>\<^verbatim>\<open>int(math.ceil(float(a) / b))\<close> for integers \<open>a\<close> and \<open>b\<close>.\<close>

definition ceil_div :: "int \<Rightarrow> int \<Rightarrow> py_error + int" where
  "ceil_div a b =
     (case py_float a of
        Inl e \<Rightarrow> Inl e
      | Inr x \<Rightarrow>
         (case float_truediv x b of
            Inl e \<Rightarrow> Inl e
          | Inr q \<Rightarrow> Inr \<lceil>q\<rceil>))"

text \<open>
  \<^verbatim>\<open>range(n)\<close> for an integer \<open>n\<close>: empty when \<open>n \<le> 0\<close>.
\<close>

definition py_range :: "int \<Rightarrow> int list" where
  "py_range n = map int [0..<nat n]"

subsection \<open>numpy arrays\<close>

text \<open>
  The element types that occur: numpy's boolean, 64-bit integer (what numpy infers for
  a list of Python integers), and the two floating-point widths. The observation type of
  the environment is taken to be one of them.
\<close>

datatype dtype = DBool | DInt64 | DFloat32 | DFloat64

text \<open>
  An array is its element type and its rows along axis 0. A Python list handed to numpy
  is read as the array \<^verbatim>\<open>np.asarray\<close> makes of it; the empty list \<^verbatim>\<open>[]\<close> is read
  as an empty array of 64-bit floats.
\<close>

record 'a ndarray =
  arr_dtype :: dtype
  arr_elems :: "'a list"

definition np_of_list :: "dtype \<Rightarrow> 'a list \<Rightarrow> 'a ndarray" where
  "np_of_list inferred xs =
     \<lparr>arr_dtype = (if xs = [] then DFloat64 else inferred), arr_elems = xs\<rparr>"

definition py_empty_list :: "'a ndarray" where
  "py_empty_list = np_of_list DFloat64 []"

text \<open>
  \<^verbatim>\<open>np.result_type\<close> on two of the element types above.
\<close>

fun promote :: "dtype \<Rightarrow> dtype \<Rightarrow> dtype" where
  "promote DBool d = d"
| "promote d DBool = d"
| "promote DInt64 DInt64 = DInt64"
| "promote DFloat32 DFloat32 = DFloat32"
| "promote _ _ = DFloat64"

text \<open>
  Conversion of the rows of an array to an element type. What the conversion does to a
  row that changes type (rounding a double to single precision, say) is left to a
  parameter \<open>cast\<close>; an array that has the requested type already is left as it is.
\<close>

definition np_convert :: "(dtype \<Rightarrow> 'a \<Rightarrow> 'a) \<Rightarrow> dtype \<Rightarrow> 'a ndarray \<Rightarrow> 'a list" where
  "np_convert cast d a =
     (if arr_dtype a = d then arr_elems a else map (cast d) (arr_elems a))"

text \<open>\<^verbatim>\<open>np.asarray(a, dtype=d)\<close>.\<close>

definition np_asarray :: "(dtype \<Rightarrow> 'a \<Rightarrow> 'a) \<Rightarrow> dtype \<Rightarrow> 'a ndarray \<Rightarrow> 'a ndarray" where
  "np_asarray cast d a = \<lparr>arr_dtype = d, arr_elems = np_convert cast d a\<rparr>"

text \<open>
  \<^verbatim>\<open>np.concatenate((a, b), axis=0)\<close>: no element type is requested, so the result has
  the common type of the two arguments, and both are converted to it.
\<close>

definition np_concatenate ::
  "(dtype \<Rightarrow> 'a \<Rightarrow> 'a) \<Rightarrow> 'a ndarray \<Rightarrow> 'a ndarray \<Rightarrow> 'a ndarray" where
  "np_concatenate cast a b =
     (let d = promote (arr_dtype a) (arr_dtype b)
      in \<lparr>arr_dtype = d, arr_elems = np_convert cast d a @ np_convert cast d b\<rparr>)"

section \<open>The rollout source (class \<open>MCTSEnv\<close>, an external collaborator)\<close>

text \<open>
  The eleven attribute names that \<^verbatim>\<open>aggregate_mcts_data\<close> iterates over, in the
  order of its dictionary.
\<close>

datatype attr =
  States | Actions | Values | NegLogprobs | Means | Logstds
  | PerEpisodeRewards | PerEpisodeLengths | Dones | PerStepRewards | Returns

definition data_attrs :: "attr list" where
  "data_attrs =
     [States, Actions, Values, NegLogprobs, Means, Logstds,
      PerEpisodeRewards, PerEpisodeLengths, Dones, PerStepRewards, Returns]"

text \<open>
  A row of an aggregated array: a boolean, an integer, or a numeric value \<open>'x\<close> of the
  simulator (an observation, an action, a float).
\<close>

datatype 'x elem = EBool bool | EInt int | ENum 'x

text \<open>
  The running statistics objects live in a store, addressed by reference, because the
  two rollout sources come to share them.
\<close>

record 'v rms =
  rms_mean :: 'v
  rms_var :: 'v
  rms_count :: 'v

text \<open>
  What the orchestrator reads of a rollout source: its eleven buffers, the simulator
  snapshots, the observation element type and the references to its two statistics
  objects. \<open>trajectory_dones\<close> is a list of booleans and
  \<open>trajectory_per_episode_lengths\<close> a list of integers; the other buffers are given as
  numpy reads them.
\<close>

record ('x, 's) game =
  trajectory_states :: "'x ndarray"
  trajectory_actions :: "'x ndarray"
  trajectory_values :: "'x ndarray"
  trajectory_neg_logprobs :: "'x ndarray"
  trajectory_means :: "'x ndarray"
  trajectory_logstds :: "'x ndarray"
  trajectory_per_episode_rewards :: "'x ndarray"
  trajectory_per_episode_lengths :: "int list"
  trajectory_dones :: "bool list"
  trajectory_per_step_rewards :: "'x ndarray"
  trajectory_returns :: "'x ndarray"
  env_states :: "'s list"
  observation_dtype :: dtype
  ob_rms :: nat
  ret_rms :: nat

definition np_num :: "'x ndarray \<Rightarrow> 'x elem ndarray" where
  "np_num a = \<lparr>arr_dtype = arr_dtype a, arr_elems = map ENum (arr_elems a)\<rparr>"

text \<open>\<^verbatim>\<open>getattr(game, data_attr)\<close>, as numpy reads the attribute.\<close>

fun getattr_game :: "('x, 's) game \<Rightarrow> attr \<Rightarrow> 'x elem ndarray" where
  "getattr_game g States = np_num (trajectory_states g)"
| "getattr_game g Actions = np_num (trajectory_actions g)"
| "getattr_game g Values = np_num (trajectory_values g)"
| "getattr_game g NegLogprobs = np_num (trajectory_neg_logprobs g)"
| "getattr_game g Means = np_num (trajectory_means g)"
| "getattr_game g Logstds = np_num (trajectory_logstds g)"
| "getattr_game g PerEpisodeRewards = np_num (trajectory_per_episode_rewards g)"
| "getattr_game g PerEpisodeLengths =
     np_of_list DInt64 (map EInt (trajectory_per_episode_lengths g))"
| "getattr_game g Dones = np_of_list DBool (map EBool (trajectory_dones g))"
| "getattr_game g PerStepRewards = np_num (trajectory_per_step_rewards g)"
| "getattr_game g Returns = np_num (trajectory_returns g)"

text \<open>
  The arguments of \<open>__init__\<close> that it both uses itself and hands on to the constructor
  of the rollout sources. (\<open>len_segment\<close> and \<open>update_rms\<close> are not handed on; the
  arguments that \<open>__init__\<close> only hands on, such as the simulator and the network, are
  part of the parameter \<open>MCTSEnv\<close> below.)
\<close>

record mcts_env_args =
  env_mcts_enable :: bool
  env_mcts_start_step_frac :: pyfloat
  env_mcts_end_step_frac :: pyfloat
  env_num_iterations :: int
  env_mcts_collect_data_freq :: int
  env_checkpoint_dir :: "string option"

text \<open>
  A rollout source together with the store of statistics objects it works on, and the
  operations of the collaborator class. Each operation is a parameter of the model: it
  may change its own source and the statistics store in any way. The constructor
  \<open>MCTSEnv\<close> and \<open>prepare_mcts_player\<close>, which \<open>__init__\<close> calls, return or raise; the
  operations that \<open>play\<close> calls are taken to return (an exception of a collaborator
  would leave \<open>play\<close> uncaught). The numeric platform is a parameter as well: \<open>np_cast\<close>
  converts one row to an element type, and \<open>float_mul\<close> is the product
  \<^verbatim>\<open>frac * num_iterations\<close> of a float and an integer, which is a float or the
  \<open>OverflowError\<close> of an integer too large for a float.
\<close>

type_synonym ('x, 's, 'v) source = "('x, 's) game \<times> (nat \<Rightarrow> 'v rms)"

record ('x, 's, 'v) externals =
  np_cast :: "dtype \<Rightarrow> 'x elem \<Rightarrow> 'x elem"
  float_mul :: "pyfloat \<Rightarrow> int \<Rightarrow> py_error + pyfloat"
  MCTSEnv :: "mcts_env_args \<Rightarrow> (nat \<Rightarrow> 'v rms) \<Rightarrow> py_error + ('x, 's, 'v) source"
  prepare_mcts_player :: "('x, 's, 'v) source \<Rightarrow> py_error + ('x, 's, 'v) source"
  update_estimator :: "bool \<Rightarrow> ('x, 's, 'v) source \<Rightarrow> ('x, 's, 'v) source"
  reset :: "('x, 's, 'v) source \<Rightarrow> ('x, 's, 'v) source"
  game_initialize_episode_data :: "('x, 's, 'v) source \<Rightarrow> ('x, 's, 'v) source"
  run_trajectory :: "int \<Rightarrow> ('x, 's, 'v) source \<Rightarrow> ('x, 's, 'v) source"
  mcts_initialization :: "'s \<Rightarrow> 'x \<Rightarrow> ('x, 's, 'v) source \<Rightarrow> ('x, 's, 'v) source"
  run_mcts_trajectory :: "int \<Rightarrow> ('x, 's, 'v) source \<Rightarrow> ('x, 's, 'v) source"

section \<open>The orchestrator (class \<open>ParallelEnv\<close>)\<close>

text \<open>The six attributes of the policy dataset, \<^verbatim>\<open>policy_trajectory_*\<close>.\<close>

datatype pattr = PStates | PActions | PValues | PNegLogprobs | PPerStepRewards | PReturns

definition policy_data_attrs :: "pattr list" where
  "policy_data_attrs = [PStates, PActions, PValues, PNegLogprobs, PPerStepRewards, PReturns]"

text \<open>
  The object's attributes. The eleven \<^verbatim>\<open>trajectory_*\<close> attributes and the six
  \<^verbatim>\<open>policy_trajectory_*\<close> attributes are read and written by name
  (\<^verbatim>\<open>getattr\<close>, \<^verbatim>\<open>setattr\<close>), so each group is a function of the attribute name.
  \<open>rms_store\<close> is the store of the statistics objects the two sources refer to.
\<close>

record ('x, 's, 'v) parallel_env =
  len_segment :: int
  sampling_step :: int
  mcts_start_step :: int
  mcts_end_step :: int
  mcts_enable :: bool
  mcts_sampling :: bool
  mcts_collect_data_freq :: int
  checkpoint_dir :: "string option"
  first_mcts :: bool
  trajectory :: "attr \<Rightarrow> 'x elem ndarray"
  policy_trajectory :: "pattr \<Rightarrow> 'x elem ndarray"
  master_game :: "('x, 's) game"
  mcts_game :: "('x, 's) game"
  rms_store :: "nat \<Rightarrow> 'v rms"

definition mcts_sample_enable :: "('x, 's, 'v) parallel_env \<Rightarrow> bool" where
  "mcts_sample_enable self =
     (mcts_enable self \<and>
      sampling_step self \<ge> mcts_start_step self \<and>
      sampling_step self < mcts_end_step self)"

definition initialize_episode_data ::
  "('x, 's, 'v) parallel_env \<Rightarrow> ('x, 's, 'v) parallel_env" where
  "initialize_episode_data self = self\<lparr>trajectory := (\<lambda>a. py_empty_list)\<rparr>"

definition initialize_policy_episode_data ::
  "('x, 's, 'v) parallel_env \<Rightarrow> ('x, 's, 'v) parallel_env" where
  "initialize_policy_episode_data self = self\<lparr>policy_trajectory := (\<lambda>p. py_empty_list)\<rparr>"

subsection \<open>\<open>process_trajectory_lengths\<close>\<close>

definition process_trajectory_lengths :: "('x, 's) game \<Rightarrow> int \<Rightarrow> py_error + int list" where
  "process_trajectory_lengths game max_steps =
     (case py_index (trajectory_dones game) (- 1) of
        Inl e \<Rightarrow> Inl e
      | Inr last_done \<Rightarrow>
          Inr (map int_of_int
            (if last_done then trajectory_per_episode_lengths game
             else if length (trajectory_per_episode_lengths game) > 0 then
               trajectory_per_episode_lengths game
                 @ [max_steps - sum_list (trajectory_per_episode_lengths game)]
             else [max_steps])))"

subsection \<open>\<open>aggregate_mcts_data\<close> and \<open>aggregate_policy_data\<close>\<close>

text \<open>
  The dictionary \<^verbatim>\<open>data_attr_types\<close>; \<open>obs\<close> is
  \<^verbatim>\<open>self.master_game.env.observation_space.dtype\<close>, and \<^verbatim>\<open>np.bool\<close> is numpy's boolean
  type.
\<close>

fun data_attr_types :: "dtype \<Rightarrow> attr \<Rightarrow> dtype" where
  "data_attr_types obs States = obs"
| "data_attr_types obs Actions = DFloat32"
| "data_attr_types obs Values = DFloat32"
| "data_attr_types obs NegLogprobs = DFloat32"
| "data_attr_types obs Means = DFloat32"
| "data_attr_types obs Logstds = DFloat32"
| "data_attr_types obs PerEpisodeRewards = DFloat32"
| "data_attr_types obs PerEpisodeLengths = DFloat32"
| "data_attr_types obs Dones = DBool"
| "data_attr_types obs PerStepRewards = DFloat32"
| "data_attr_types obs Returns = DFloat32"

text \<open>The body of the loop of \<^verbatim>\<open>aggregate_mcts_data\<close> up to the \<^verbatim>\<open>setattr\<close>.\<close>

definition new_attr_val ::
  "('x, 's, 'v) externals \<Rightarrow> ('x, 's, 'v) parallel_env \<Rightarrow> attr \<Rightarrow> 'x elem ndarray" where
  "new_attr_val E self data_attr =
     (let data_type = data_attr_types (observation_dtype (master_game self)) data_attr
      in if mcts_sampling self then
           (let old_attr_val = trajectory self data_attr;
                mcts_attr_val = getattr_game (mcts_game self) data_attr
            in if length (arr_elems old_attr_val) > 0 then
                 np_concatenate (np_cast E) old_attr_val mcts_attr_val
               else np_asarray (np_cast E) data_type mcts_attr_val)
         else np_asarray (np_cast E) data_type (getattr_game (master_game self) data_attr))"

text \<open>\<^verbatim>\<open>setattr(self, data_attr, new_attr_val)\<close>.\<close>

definition setattr_trajectory ::
  "attr \<Rightarrow> 'x elem ndarray \<Rightarrow> ('x, 's, 'v) parallel_env \<Rightarrow> ('x, 's, 'v) parallel_env" where
  "setattr_trajectory data_attr v self = self\<lparr>trajectory := (trajectory self)(data_attr := v)\<rparr>"

definition aggregate_mcts_data ::
  "('x, 's, 'v) externals \<Rightarrow> ('x, 's, 'v) parallel_env \<Rightarrow> ('x, 's, 'v) parallel_env" where
  "aggregate_mcts_data E self0 =
     fold (\<lambda>data_attr self. setattr_trajectory data_attr (new_attr_val E self data_attr) self)
       data_attrs self0"

text \<open>
  The dictionary of \<^verbatim>\<open>aggregate_policy_data\<close>, and the attribute of the primary
  source each name stands for (\<^verbatim>\<open>data_attr.split('_', 1)[1]\<close>).
\<close>

fun policy_attr_types :: "dtype \<Rightarrow> pattr \<Rightarrow> dtype" where
  "policy_attr_types obs PStates = obs"
| "policy_attr_types obs PActions = DFloat32"
| "policy_attr_types obs PValues = DFloat32"
| "policy_attr_types obs PNegLogprobs = DFloat32"
| "policy_attr_types obs PPerStepRewards = DFloat32"
| "policy_attr_types obs PReturns = DFloat32"

fun master_data_attr :: "pattr \<Rightarrow> attr" where
  "master_data_attr PStates = States"
| "master_data_attr PActions = Actions"
| "master_data_attr PValues = Values"
| "master_data_attr PNegLogprobs = NegLogprobs"
| "master_data_attr PPerStepRewards = PerStepRewards"
| "master_data_attr PReturns = Returns"

definition new_policy_attr_val ::
  "('x, 's, 'v) externals \<Rightarrow> ('x, 's, 'v) parallel_env \<Rightarrow> pattr \<Rightarrow> 'x elem ndarray" where
  "new_policy_attr_val E self data_attr =
     np_asarray (np_cast E)
       (policy_attr_types (observation_dtype (master_game self)) data_attr)
       (getattr_game (master_game self) (master_data_attr data_attr))"

definition setattr_policy_trajectory ::
  "pattr \<Rightarrow> 'x elem ndarray \<Rightarrow> ('x, 's, 'v) parallel_env \<Rightarrow> ('x, 's, 'v) parallel_env" where
  "setattr_policy_trajectory data_attr v self =
     self\<lparr>policy_trajectory := (policy_trajectory self)(data_attr := v)\<rparr>"

definition aggregate_policy_data ::
  "('x, 's, 'v) externals \<Rightarrow> ('x, 's, 'v) parallel_env \<Rightarrow> ('x, 's, 'v) parallel_env" where
  "aggregate_policy_data E self0 =
     fold (\<lambda>data_attr self.
             setattr_policy_trajectory data_attr (new_policy_attr_val E self data_attr) self)
       policy_data_attrs self0"

subsection \<open>\<open>play\<close>\<close>

text \<open>
  The calls \<open>play\<close> makes on the search source and the rebinding of its statistics are
  recorded, in order, by the statements that make them: \<open>Search_rollout i h\<close> is a search
  rollout started from entry \<open>i\<close> of the primary rollout and run with
  \<^verbatim>\<open>max_horizon=h\<close>.
\<close>

datatype event = Stats_handoff | Search_rollout int int

text \<open>Lines 220 to 224: the primary source collects a fresh rollout.\<close>

definition run_master ::
  "('x, 's, 'v) externals \<Rightarrow> int \<Rightarrow> bool \<Rightarrow> ('x, 's, 'v) parallel_env
     \<Rightarrow> ('x, 's, 'v) parallel_env" where
  "run_master E max_steps test_mode self =
     (let src = run_trajectory E max_steps
                  (game_initialize_episode_data E
                    (reset E
                      (update_estimator E test_mode (master_game self, rms_store self))))
      in self\<lparr>master_game := fst src, rms_store := snd src\<rparr>)"

text \<open>
  The start index and the horizon of each search rollout of one segment
  (\<^verbatim>\<open>len_trajectory\<close>), as the inner loop computes them for \<^verbatim>\<open>i in range(num_inits)\<close>.
\<close>

definition sub_spans :: "int \<Rightarrow> int \<Rightarrow> int \<Rightarrow> int \<Rightarrow> (int \<times> int) list" where
  "sub_spans base_len len_trajectory len_seg num_inits =
     (let init_state_interval = len_seg;
          last_state_interval = len_trajectory - (num_inits - 1) * init_state_interval
      in map (\<lambda>i. (base_len + init_state_interval * i,
                    if i < num_inits - 1 then init_state_interval else last_state_interval))
           (py_range num_inits))"

text \<open>One pass of the inner loop body (lines 271 to 283).\<close>

definition search_rollout ::
  "('x, 's, 'v) externals \<Rightarrow> int \<times> int \<Rightarrow> ('x, 's, 'v) parallel_env
     \<Rightarrow> py_error + (('x, 's, 'v) parallel_env \<times> event)" where
  "search_rollout E sp self =
     (case py_index (env_states (master_game self)) (fst sp) of
        Inl e \<Rightarrow> Inl e
      | Inr init_state \<Rightarrow>
         (case py_index (arr_elems (trajectory_actions (master_game self))) (fst sp) of
            Inl e \<Rightarrow> Inl e
          | Inr init_action \<Rightarrow>
              (let src = run_mcts_trajectory E (snd sp)
                           (game_initialize_episode_data E
                             (mcts_initialization E init_state init_action
                               (mcts_game self, rms_store self)))
               in Inr (aggregate_mcts_data E
                         (self\<lparr>mcts_game := fst src, rms_store := snd src\<rparr>),
                       Search_rollout (fst sp) (snd sp)))))"

fun run_inits ::
  "('x, 's, 'v) externals \<Rightarrow> (int \<times> int) list \<Rightarrow> ('x, 's, 'v) parallel_env
     \<Rightarrow> py_error + (('x, 's, 'v) parallel_env \<times> event list)" where
  "run_inits E [] self = Inr (self, [])"
| "run_inits E (sp # spans) self =
     (case search_rollout E sp self of
        Inl e \<Rightarrow> Inl e
      | Inr (self1, ev) \<Rightarrow>
         (case run_inits E spans self1 of
            Inl e \<Rightarrow> Inl e
          | Inr (self2, evs) \<Rightarrow> Inr (self2, ev # evs)))"

text \<open>The loop over \<^verbatim>\<open>len_trajectories\<close> (lines 257 to 284).\<close>

fun run_segments ::
  "('x, 's, 'v) externals \<Rightarrow> int \<Rightarrow> int list \<Rightarrow> ('x, 's, 'v) parallel_env
     \<Rightarrow> py_error + (('x, 's, 'v) parallel_env \<times> event list)" where
  "run_segments E base_len [] self = Inr (self, [])"
| "run_segments E base_len (len_trajectory # rest) self =
     (case ceil_div len_trajectory (len_segment self) of
        Inl e \<Rightarrow> Inl e
      | Inr num_inits \<Rightarrow>
         (case run_inits E (sub_spans base_len len_trajectory (len_segment self) num_inits) self of
            Inl e \<Rightarrow> Inl e
          | Inr (self1, evs1) \<Rightarrow>
             (case run_segments E (base_len + len_trajectory) rest self1 of
                Inl e \<Rightarrow> Inl e
              | Inr (self2, evs2) \<Rightarrow> Inr (self2, evs1 @ evs2))))"

text \<open>The branch for a step that is not in the search window (lines 229 to 234).\<close>

definition policy_sampling ::
  "('x, 's, 'v) externals \<Rightarrow> ('x, 's, 'v) parallel_env \<Rightarrow> ('x, 's, 'v) parallel_env" where
  "policy_sampling E self =
     aggregate_policy_data E
       (aggregate_mcts_data E
         ((initialize_policy_episode_data (initialize_episode_data self))
            \<lparr>mcts_sampling := False\<rparr>))"

text \<open>Lines 236 to 242: the search source is made to share the primary source's statistics.\<close>

definition stats_handoff ::
  "('x, 's, 'v) parallel_env \<Rightarrow> ('x, 's, 'v) parallel_env \<times> event list" where
  "stats_handoff self =
     (if first_mcts self then
        (self\<lparr>mcts_game := (mcts_game self)
                 \<lparr>ob_rms := ob_rms (master_game self),
                  ret_rms := ret_rms (master_game self)\<rparr>,
              first_mcts := False\<rparr>,
         [Stats_handoff])
      else (self, []))"

text \<open>Lines 246 to 286: a step that collects search data.\<close>

definition mcts_sampling_step ::
  "('x, 's, 'v) externals \<Rightarrow> int \<Rightarrow> bool \<Rightarrow> ('x, 's, 'v) parallel_env
     \<Rightarrow> py_error + (('x, 's, 'v) parallel_env \<times> event list)" where
  "mcts_sampling_step E max_steps test_mode self =
     (let self1 = (initialize_policy_episode_data (initialize_episode_data self))
                    \<lparr>mcts_sampling := True\<rparr>;
          src = update_estimator E test_mode (mcts_game self1, rms_store self1);
          self2 = self1\<lparr>mcts_game := fst src, rms_store := snd src\<rparr>;
          base_len = 0
      in case process_trajectory_lengths (master_game self2) max_steps of
           Inl e \<Rightarrow> Inl e
         | Inr len_trajectories \<Rightarrow>
            (case run_segments E base_len len_trajectories self2 of
               Inl e \<Rightarrow> Inl e
             | Inr (self3, evs) \<Rightarrow> Inr (aggregate_policy_data E self3, evs)))"

text \<open>
  \<open>play\<close> returns the object after the call and the events of the call, or the exception
  that ended the call (the object a failed call leaves behind is not modelled).
\<close>

definition play ::
  "('x, 's, 'v) externals \<Rightarrow> int \<Rightarrow> bool \<Rightarrow> ('x, 's, 'v) parallel_env
     \<Rightarrow> py_error + (('x, 's, 'v) parallel_env \<times> event list)" where
  "play E max_steps test_mode self0 =
     (let self = run_master E max_steps test_mode self0
      in case
           (if \<not> mcts_sample_enable self then Inr (policy_sampling E self, [])
            else
              (let (self1, evs1) = stats_handoff self
               in case py_mod (sampling_step self1 - mcts_start_step self1)
                         (mcts_collect_data_freq self1) of
                    Inl e \<Rightarrow> Inl e
                  | Inr r \<Rightarrow>
                     if r = 0 then
                       (case mcts_sampling_step E max_steps test_mode self1 of
                          Inl e \<Rightarrow> Inl e
                        | Inr (self2, evs2) \<Rightarrow> Inr (self2, evs1 @ evs2))
                     else Inr (self1, evs1)))
         of
           Inl e \<Rightarrow> Inl e
         | Inr (self3, evs) \<Rightarrow> Inr (self3\<lparr>sampling_step := sampling_step self3 + 1\<rparr>, evs))"

text \<open>
  A sequence of calls of \<open>play\<close>, each with its \<open>max_steps\<close> and \<open>test_mode\<close>. The result
  lists, for every call, the object as it was before the call and the events of the call,
  and gives the object after the last call. The sequence ends at the first exception.
\<close>

fun play_seq ::
  "('x, 's, 'v) externals \<Rightarrow> (int \<times> bool) list \<Rightarrow> ('x, 's, 'v) parallel_env
     \<Rightarrow> py_error + ((('x, 's, 'v) parallel_env \<times> event list) list \<times> ('x, 's, 'v) parallel_env)" where
  "play_seq E [] self = Inr ([], self)"
| "play_seq E (call # calls) self =
     (case play E (fst call) (snd call) self of
        Inl e \<Rightarrow> Inl e
      | Inr (self1, evs) \<Rightarrow>
         (case play_seq E calls self1 of
            Inl e \<Rightarrow> Inl e
          | Inr (run, final) \<Rightarrow> Inr ((self, evs) # run, final)))"

subsection \<open>\<open>__init__\<close>\<close>

text \<open>
  The constructor's arguments that the orchestrator itself uses (the others are only
  handed to the two rollout sources).
\<close>

record config =
  arg_len_segment :: int
  arg_mcts_enable :: bool
  mcts_start_step_frac :: pyfloat
  mcts_end_step_frac :: pyfloat
  num_iterations :: int
  arg_mcts_collect_data_freq :: int
  arg_checkpoint_dir :: "string option"
  update_rms :: bool

text \<open>The arguments of the call \<^verbatim>\<open>game_env.MCTSEnv(...)\<close> (lines 116 to 136).\<close>

definition game_args :: "config \<Rightarrow> mcts_env_args" where
  "game_args cfg =
     \<lparr>env_mcts_enable = arg_mcts_enable cfg,
      env_mcts_start_step_frac = mcts_start_step_frac cfg,
      env_mcts_end_step_frac = mcts_end_step_frac cfg,
      env_num_iterations = num_iterations cfg,
      env_mcts_collect_data_freq = arg_mcts_collect_data_freq cfg,
      env_checkpoint_dir = arg_checkpoint_dir cfg\<rparr>"

text \<open>\<^verbatim>\<open>int(x * num_iterations)\<close> for a fraction \<open>x\<close> (lines 106 and 107).\<close>

definition int_of_product ::
  "('x, 's, 'v) externals \<Rightarrow> pyfloat \<Rightarrow> int \<Rightarrow> py_error + int" where
  "int_of_product E x n =
     (case float_mul E x n of
        Inl e \<Rightarrow> Inl e
      | Inr p \<Rightarrow> py_int p)"

text \<open>\<^verbatim>\<open>os.path.join(a, b)\<close> for a relative \<open>b\<close>.\<close>

definition os_path_join :: "string \<Rightarrow> string \<Rightarrow> string" where
  "os_path_join a b =
     (if a = [] then b else if last a = CHR ''/'' then a @ b else a @ ''/'' @ b)"

text \<open>
  What \<^verbatim>\<open>pickle.load\<close> can return: a dictionary, whose values are such objects again,
  or an object of another kind. A file holds the pickle of an object, or bytes that are
  no pickle. \<^verbatim>\<open>obj[key]\<close> for a string \<open>key\<close> raises \<open>KeyError\<close> on a dictionary that
  lacks the key, and \<open>TypeError\<close> on an object that is no dictionary (as a number or
  \<open>None\<close> does).
\<close>

datatype 'v pyobj = Val 'v | Dict "(string \<times> 'v pyobj) list"

datatype 'v file_content = Pickle "'v pyobj" | Not_a_pickle

definition pickle_load :: "'v file_content \<Rightarrow> py_error + 'v pyobj" where
  "pickle_load f = (case f of Pickle obj \<Rightarrow> Inr obj | Not_a_pickle \<Rightarrow> Inl UnpicklingError)"

definition py_getitem :: "'v pyobj \<Rightarrow> string \<Rightarrow> py_error + 'v pyobj" where
  "py_getitem obj key =
     (case obj of
        Val v \<Rightarrow> Inl TypeError
      | Dict kvs \<Rightarrow>
         (case map_of kvs key of
            None \<Rightarrow> Inl KeyError
          | Some v \<Rightarrow> Inr v))"

text \<open>\<^verbatim>\<open>norm[a][b]\<close>.\<close>

definition norm_entry :: "'v pyobj \<Rightarrow> string \<Rightarrow> string \<Rightarrow> py_error + 'v pyobj" where
  "norm_entry nrm a b =
     (case py_getitem nrm a of
        Inl e \<Rightarrow> Inl e
      | Inr d \<Rightarrow> py_getitem d b)"

text \<open>
  Lines 143 to 156: the statistics of the primary source are overwritten, field by
  field, with the objects found in the checkpoint. \<open>files\<close> maps a path to the content of
  the file there. The six assignments run in the order of the source, and the first
  statement that raises ends the constructor.
\<close>

definition load_norm ::
  "(string \<rightharpoonup> 'v file_content) \<Rightarrow> string option \<Rightarrow> ('x, 's) game
     \<Rightarrow> (nat \<Rightarrow> 'v pyobj rms) \<Rightarrow> py_error + (nat \<Rightarrow> 'v pyobj rms)" where
  "load_norm files dir master store =
     (case dir of
        None \<Rightarrow> Inl TypeError
      | Some d \<Rightarrow>
     (case files (os_path_join d ''norm'') of
        None \<Rightarrow> Inl IOError
      | Some f \<Rightarrow>
     (case pickle_load f of
        Inl e \<Rightarrow> Inl e
      | Inr nrm \<Rightarrow>
     (case norm_entry nrm ''obs'' ''mean'' of
        Inl e \<Rightarrow> Inl e
      | Inr obs_mean \<Rightarrow>
     (case norm_entry nrm ''obs'' ''var'' of
        Inl e \<Rightarrow> Inl e
      | Inr obs_var \<Rightarrow>
     (case norm_entry nrm ''obs'' ''count'' of
        Inl e \<Rightarrow> Inl e
      | Inr obs_count \<Rightarrow>
     (case norm_entry nrm ''ret'' ''mean'' of
        Inl e \<Rightarrow> Inl e
      | Inr ret_mean \<Rightarrow>
     (case norm_entry nrm ''ret'' ''var'' of
        Inl e \<Rightarrow> Inl e
      | Inr ret_var \<Rightarrow>
     (case norm_entry nrm ''ret'' ''count'' of
        Inl e \<Rightarrow> Inl e
      | Inr ret_count \<Rightarrow>
         (let store1 = store(ob_rms master :=
                (store (ob_rms master))
                  \<lparr>rms_mean := obs_mean, rms_var := obs_var, rms_count := obs_count\<rparr>);
              store2 = store1(ret_rms master :=
                (store1 (ret_rms master))
                  \<lparr>rms_mean := ret_mean, rms_var := ret_var, rms_count := ret_count\<rparr>)
          in Inr store2))))))))))"

text \<open>
  \<open>init\<close> is \<^verbatim>\<open>__init__\<close>; \<open>store\<close> is the statistics store before the call. The
  statements that can raise come in the order of the source: the two window bounds
  (lines 106 and 107), the construction of the primary source, the checkpoint (if
  \<open>update_rms\<close>), the construction of the search source and its preparation. The
  attributes of the new object are listed in the record's order.
\<close>

definition init ::
  "('x, 's, 'v pyobj) externals \<Rightarrow> (string \<rightharpoonup> 'v file_content) \<Rightarrow> (nat \<Rightarrow> 'v pyobj rms)
     \<Rightarrow> config \<Rightarrow> py_error + ('x, 's, 'v pyobj) parallel_env" where
  "init E files store cfg =
     (case int_of_product E (mcts_start_step_frac cfg) (num_iterations cfg) of
        Inl e \<Rightarrow> Inl e
      | Inr start_step \<Rightarrow>
     (case int_of_product E (mcts_end_step_frac cfg) (num_iterations cfg) of
        Inl e \<Rightarrow> Inl e
      | Inr end_step \<Rightarrow>
     (case MCTSEnv E (game_args cfg) store of
        Inl e \<Rightarrow> Inl e
      | Inr master \<Rightarrow>
     (case (if update_rms cfg
            then load_norm files (arg_checkpoint_dir cfg) (fst master) (snd master)
            else Inr (snd master)) of
        Inl e \<Rightarrow> Inl e
      | Inr store1 \<Rightarrow>
     (case MCTSEnv E (game_args cfg) store1 of
        Inl e \<Rightarrow> Inl e
      | Inr game \<Rightarrow>
     (case prepare_mcts_player E game of
        Inl e \<Rightarrow> Inl e
      | Inr mcts \<Rightarrow>
          Inr \<lparr>len_segment = arg_len_segment cfg,
               sampling_step = 0,
               mcts_start_step = start_step,
               mcts_end_step = end_step,
               mcts_enable = arg_mcts_enable cfg,
               mcts_sampling = False,
               mcts_collect_data_freq = arg_mcts_collect_data_freq cfg,
               checkpoint_dir = arg_checkpoint_dir cfg,
               first_mcts = True,
               trajectory = (\<lambda>a. py_empty_list),
               policy_trajectory = (\<lambda>p. py_empty_list),
               master_game = fst master,
               mcts_game = fst mcts,
               rms_store = snd mcts\<rparr>))))))"

section \<open>Definitions used to state the properties\<close>

text \<open>
  The rounding the specification names for the two window bounds: Python's
  \<^verbatim>\<open>round(x)\<close>, to the nearest integer, a tie going to the even one.
\<close>

definition py_round :: "rat \<Rightarrow> int" where
  "py_round x =
     (let f = \<lfloor>x\<rfloor>; r = x - of_int f
      in if r < 1 / 2 then f else if 1 / 2 < r then f + 1
         else if even f then f else f + 1)"

text \<open>
  A step that collects search data calls \<^verbatim>\<open>aggregate_mcts_data\<close> once after each
  search rollout, when the search source holds that rollout's buffers. \<open>aggregate_buffers\<close>
  is that sequence of calls for the buffers \<open>B1, \<dots>, Bn\<close>.
\<close>

fun aggregate_buffers ::
  "('x, 's, 'v) externals \<Rightarrow> ('x, 's) game list \<Rightarrow> ('x, 's, 'v) parallel_env
     \<Rightarrow> ('x, 's, 'v) parallel_env" where
  "aggregate_buffers E [] self = self"
| "aggregate_buffers E (b # bs) self =
     aggregate_buffers E bs (aggregate_mcts_data E (self\<lparr>mcts_game := b\<rparr>))"

text \<open>
  Modelled from the spec: the rollout source (class \<open>MCTSEnv\<close>), which records \<open>dones\<close>
  and \<open>per_episode_lengths\<close> during a rollout, is not among the files modelled here.
  Section 3 of the specification describes the two sequences of a rollout buffer:
  \<open>dones\<close> is true exactly at the final timestep of each completed episode within the
  buffer, and \<open>per_episode_lengths\<close> has one entry per completed episode, the number of
  its timesteps. \<open>episode_lengths dones\<close> is the record of episode lengths that this
  description determines from \<open>dones\<close>; \<open>n\<close> counts the steps of the episode under way.
\<close>

fun episode_lengths_from :: "int \<Rightarrow> bool list \<Rightarrow> int list" where
  "episode_lengths_from n [] = []"
| "episode_lengths_from n (d # ds) =
     (if d then (n + 1) # episode_lengths_from 0 ds else episode_lengths_from (n + 1) ds)"

definition episode_lengths :: "bool list \<Rightarrow> int list" where
  "episode_lengths ds = episode_lengths_from 0 ds"

text \<open>
  A search rollout as the specification describes it: initialised from the primary
  rollout's environment state and action at entry \<open>i\<close>, run with horizon \<open>h\<close>, and its
  buffers aggregated. \<open>launches\<close> is a sequence of them, one for each pair of a start
  entry and a horizon.
\<close>

definition launch ::
  "('x, 's, 'v) externals \<Rightarrow> int \<Rightarrow> int \<Rightarrow> ('x, 's, 'v) parallel_env
     \<Rightarrow> ('x, 's, 'v) parallel_env" where
  "launch E i h self =
     (let src = run_mcts_trajectory E h
                  (game_initialize_episode_data E
                    (mcts_initialization E
                       (env_states (master_game self) ! nat i)
                       (arr_elems (trajectory_actions (master_game self)) ! nat i)
                       (mcts_game self, rms_store self)))
      in aggregate_mcts_data E (self\<lparr>mcts_game := fst src, rms_store := snd src\<rparr>))"

fun launches ::
  "('x, 's, 'v) externals \<Rightarrow> (int \<times> int) list \<Rightarrow> ('x, 's, 'v) parallel_env
     \<Rightarrow> ('x, 's, 'v) parallel_env" where
  "launches E [] self = self"
| "launches E (ih # rest) self = launches E rest (launch E (fst ih) (snd ih) self)"

text \<open>
  What a call of \<open>play\<close> inside the search window does after the hand-off block (lines
  244 to 288): the frequency gate, the search step, and the increment of
  \<open>sampling_step\<close>.
\<close>

definition rest_of_call ::
  "('x, 's, 'v) externals \<Rightarrow> int \<Rightarrow> bool \<Rightarrow> ('x, 's, 'v) parallel_env
     \<Rightarrow> py_error + (('x, 's, 'v) parallel_env \<times> event list)" where
  "rest_of_call E max_steps test_mode self =
     (case py_mod (sampling_step self - mcts_start_step self) (mcts_collect_data_freq self) of
        Inl e \<Rightarrow> Inl e
      | Inr r \<Rightarrow>
         (case (if r = 0 then mcts_sampling_step E max_steps test_mode self
                else Inr (self, [])) of
            Inl e \<Rightarrow> Inl e
          | Inr (self1, evs) \<Rightarrow>
              Inr (self1\<lparr>sampling_step := sampling_step self1 + 1\<rparr>, evs)))"

subsection \<open>A small deterministic collaborator, for the examples\<close>

text \<open>
  A source with no data yet, whose observations are single-precision floats.
\<close>

definition sample_game :: "(rat, nat) game" where
  "sample_game =
     \<lparr>trajectory_states = py_empty_list, trajectory_actions = py_empty_list,
      trajectory_values = py_empty_list, trajectory_neg_logprobs = py_empty_list,
      trajectory_means = py_empty_list, trajectory_logstds = py_empty_list,
      trajectory_per_episode_rewards = py_empty_list,
      trajectory_per_episode_lengths = [],
      trajectory_dones = [],
      trajectory_per_step_rewards = py_empty_list, trajectory_returns = py_empty_list,
      env_states = [], observation_dtype = DFloat32, ob_rms = 0, ret_rms = 1\<rparr>"

text \<open>
  A rollout of \<open>n\<close> steps in which every episode lasts two steps and earns the reward 1;
  \<open>c\<close> is the number of steps simulated before it, and the value recorded at step \<open>i\<close>
  is \<open>c + i\<close>. The network outputs are single-precision floats, the rewards are Python
  floats kept in lists.
\<close>

definition sample_rollout :: "nat \<Rightarrow> rat \<Rightarrow> (rat, nat) game \<Rightarrow> (rat, nat) game" where
  "sample_rollout n c g =
     g\<lparr>trajectory_states := np_of_list DFloat32 (map (\<lambda>i. c + of_nat i) [0..<n]),
       trajectory_actions := np_of_list DFloat32 (map (\<lambda>i. c + of_nat i) [0..<n]),
       trajectory_values := np_of_list DFloat32 (map (\<lambda>i. c + of_nat i) [0..<n]),
       trajectory_neg_logprobs := np_of_list DFloat32 (map (\<lambda>i. c + of_nat i) [0..<n]),
       trajectory_means := np_of_list DFloat32 (map (\<lambda>i. c + of_nat i) [0..<n]),
       trajectory_logstds := np_of_list DFloat32 (map (\<lambda>i. c + of_nat i) [0..<n]),
       trajectory_per_episode_rewards := np_of_list DFloat64 (replicate (n div 2) 1),
       trajectory_per_episode_lengths := replicate (n div 2) 2,
       trajectory_dones := map odd [0..<n],
       trajectory_per_step_rewards := np_of_list DFloat64 (map (\<lambda>i. c + of_nat i) [0..<n]),
       trajectory_returns := np_of_list DFloat64 (map (\<lambda>i. c + of_nat i) [0..<n]),
       env_states := [0..<n]\<rparr>"

text \<open>
  The primary rollout counts its steps in the observation statistics; a search rollout
  leaves the statistics alone.
\<close>

definition sample_count :: "rat pyobj \<Rightarrow> rat" where
  "sample_count obj = (case obj of Val r \<Rightarrow> r | Dict kvs \<Rightarrow> 0)"

definition sample_run_trajectory ::
  "int \<Rightarrow> (rat, nat, rat pyobj) source \<Rightarrow> (rat, nat, rat pyobj) source" where
  "sample_run_trajectory n src =
     (let g = fst src; st = snd src; c = sample_count (rms_count (st (ob_rms g)))
      in (sample_rollout (nat n) c g,
          st(ob_rms g := (st (ob_rms g))\<lparr>rms_count := Val (c + of_int n)\<rparr>)))"

definition sample_run_mcts_trajectory ::
  "int \<Rightarrow> (rat, nat, rat pyobj) source \<Rightarrow> (rat, nat, rat pyobj) source" where
  "sample_run_mcts_trajectory h src = (sample_rollout (nat h) 0 (fst src), snd src)"

text \<open>
  Conversions leave the values alone and the product of a finite float and an integer is
  exact: both are right for the small dyadic numbers of the examples. The constructor
  accepts every argument.
\<close>

definition sample_float_mul :: "pyfloat \<Rightarrow> int \<Rightarrow> py_error + pyfloat" where
  "sample_float_mul x n =
     (case x of Finite r \<Rightarrow> Inr (Finite (r * of_int n)) | PosInf \<Rightarrow> Inr PosInf
      | NegInf \<Rightarrow> Inr NegInf | NaN \<Rightarrow> Inr NaN)"

definition sample_externals :: "(rat, nat, rat pyobj) externals" where
  "sample_externals =
     \<lparr>np_cast = (\<lambda>d e. e),
      float_mul = sample_float_mul,
      MCTSEnv = (\<lambda>args st. Inr (sample_game, st)),
      prepare_mcts_player = (\<lambda>src. Inr ((fst src)\<lparr>ob_rms := 2, ret_rms := 3\<rparr>, snd src)),
      update_estimator = (\<lambda>t src. src),
      reset = (\<lambda>src. src),
      game_initialize_episode_data = (\<lambda>src. (sample_rollout 0 0 (fst src), snd src)),
      run_trajectory = sample_run_trajectory,
      mcts_initialization = (\<lambda>s a src. src),
      run_mcts_trajectory = sample_run_mcts_trajectory\<rparr>"

definition sample_store :: "nat \<Rightarrow> rat pyobj rms" where
  "sample_store = (\<lambda>r. \<lparr>rms_mean = Val 0, rms_var = Val 1, rms_count = Val 0\<rparr>)"

text \<open>
  A configuration whose search window is the steps 0, 1 and 2, with search data collected
  on every second step, and the object constructed from it.
\<close>

definition sample_config :: config where
  "sample_config =
     \<lparr>arg_len_segment = 2, arg_mcts_enable = True,
      mcts_start_step_frac = Finite 0, mcts_end_step_frac = Finite (3 / 4),
      num_iterations = 4,
      arg_mcts_collect_data_freq = 2, arg_checkpoint_dir = None, update_rms = False\<rparr>"

definition sample_env :: "(rat, nat, rat pyobj) parallel_env" where
  "sample_env = projr (init sample_externals Map.empty sample_store sample_config)"

text \<open>
  The checkpoint of the examples: a file \<^verbatim>\<open>ckpt/norm\<close> that holds the two statistics
  dictionaries.
\<close>

definition sample_norm :: "rat pyobj" where
  "sample_norm =
     Dict [(''obs'', Dict [(''mean'', Val 5), (''var'', Val 2), (''count'', Val 10)]),
           (''ret'', Dict [(''mean'', Val 7), (''var'', Val 3), (''count'', Val 10)])]"

definition sample_files :: "string \<rightharpoonup> rat file_content" where
  "sample_files = [''ckpt/norm'' \<mapsto> Pickle sample_norm]"

text \<open>
  The object after one and after two calls \<^verbatim>\<open>play(3)\<close>, the events of the two calls,
  and the two calls as a sequence.
\<close>

definition sample_env1 :: "(rat, nat, rat pyobj) parallel_env" where
  "sample_env1 = fst (projr (play sample_externals 3 False sample_env))"

definition sample_events1 :: "event list" where
  "sample_events1 = snd (projr (play sample_externals 3 False sample_env))"

definition sample_env2 :: "(rat, nat, rat pyobj) parallel_env" where
  "sample_env2 = fst (projr (play sample_externals 3 False sample_env1))"

definition sample_events2 :: "event list" where
  "sample_events2 = snd (projr (play sample_externals 3 False sample_env1))"

definition sample_run ::
  "((rat, nat, rat pyobj) parallel_env \<times> event list) list \<times> (rat, nat, rat pyobj) parallel_env" where
  "sample_run = projr (play_seq sample_externals [(3, False), (3, False)] sample_env)"

section \<open>Properties\<close>

subsection \<open>Double-precision rounding\<close>

text \<open>
  The exponent found by \<open>binade\<close> is the right one; rounding moves a value of the normal
  range by at most \<open>2^-53\<close> of its size and leaves an integer below \<open>2^53\<close> alone. It
  follows that the rounded quotient of two positive integers below \<open>2^53\<close> has the
  ceiling of the exact quotient.
\<close>

lemma bitlen_powi_bounds:
  assumes "0 < a"
  shows "(2::rat) powi (bitlen a - 1) \<le> of_int a" and "(of_int a :: rat) < 2 powi (bitlen a)"
proof -
  from assms have b1: "1 \<le> bitlen a" by (auto simp: bitlen_alt_def)
  from bitlen_bounds[OF assms] have lo: "2 ^ nat (bitlen a - 1) \<le> a" and hi: "a < 2 ^ nat (bitlen a)"
    by simp_all
  have "(2::rat) powi (bitlen a - 1) = 2 ^ nat (bitlen a - 1)"
    using b1 by (simp add: power_int_def)
  also have "\<dots> = of_int (2 ^ nat (bitlen a - 1))" by simp
  also have "\<dots> \<le> of_int a" using lo by (simp only: of_int_le_iff)
  finally show "(2::rat) powi (bitlen a - 1) \<le> of_int a" .
  have "(of_int a :: rat) < of_int (2 ^ nat (bitlen a))" using hi by (simp only: of_int_less_iff)
  also have "\<dots> = 2 powi (bitlen a)" using b1 by (simp add: power_int_def)
  finally show "(of_int a :: rat) < 2 powi (bitlen a)" .
qed

lemma binade_bounds:
  assumes "x \<noteq> 0"
  shows "2 powi (binade x) \<le> \<bar>x\<bar>" and "\<bar>x\<bar> < 2 powi (binade x + 1)"
proof -
  obtain a b where q: "quotient_of \<bar>x\<bar> = (a, b)" by (cases "quotient_of \<bar>x\<bar>")
  have b: "0 < b" using q by (rule quotient_of_denom_pos)
  have x: "\<bar>x\<bar> = of_int a / of_int b" using q by (rule quotient_of_div)
  have a: "0 < a"
  proof -
    have "0 < \<bar>x\<bar>" using assms by simp
    then have "0 < (of_int a :: rat) / of_int b" using x by simp
    then show ?thesis using b by (simp add: zero_less_divide_iff)
  qed
  define e where "e = bitlen a - bitlen b"
  have bq: "(0::rat) < of_int b" using b by simp
  note A = bitlen_powi_bounds[OF a] and B = bitlen_powi_bounds[OF b]
  have lo: "(2::rat) powi (e - 1) \<le> \<bar>x\<bar>"
  proof -
    have "(2::rat) powi (e - 1) * of_int b \<le> 2 powi (e - 1) * 2 powi (bitlen b)"
      using B(2) by (intro mult_left_mono) simp_all
    also have "\<dots> = 2 powi (bitlen a - 1)"
      by (simp add: e_def power_int_add[symmetric])
    also have "\<dots> \<le> of_int a" by (rule A(1))
    finally show ?thesis unfolding x using bq by (simp add: pos_le_divide_eq)
  qed
  have hi: "\<bar>x\<bar> < (2::rat) powi (e + 1)"
  proof -
    have "(of_int a :: rat) < 2 powi (bitlen a)" by (rule A(2))
    also have "\<dots> = 2 powi (e + 1) * 2 powi (bitlen b - 1)"
      by (simp add: e_def power_int_add[symmetric])
    also have "\<dots> \<le> 2 powi (e + 1) * of_int b"
      using B(1) by (intro mult_left_mono) simp_all
    finally show ?thesis unfolding x using bq by (simp add: pos_divide_less_eq)
  qed
  have bin: "binade x = (if 2 powi e \<le> \<bar>x\<bar> then e else e - 1)"
    by (simp add: binade_def q e_def Let_def)
  show "2 powi (binade x) \<le> \<bar>x\<bar>" using lo by (simp add: bin)
  show "\<bar>x\<bar> < 2 powi (binade x + 1)" using hi by (auto simp: bin not_le)
qed


lemma round_half_even_error: "\<bar>of_int (round_half_even x) - x\<bar> \<le> 1 / 2"
proof -
  have "of_int \<lfloor>x\<rfloor> \<le> x" "x < of_int \<lfloor>x\<rfloor> + 1" by linarith+
  then show ?thesis by (auto simp: round_half_even_def Let_def abs_le_iff)
qed

lemma round_half_even_of_int: "round_half_even (of_int k) = k"
  by (simp add: round_half_even_def Let_def)

lemma round_double_error:
  assumes "2 powi (- 1022) \<le> \<bar>x\<bar>"
  shows "\<bar>round_double x - x\<bar> \<le> \<bar>x\<bar> / 2 ^ 53"
proof -
  have "(0::rat) < 2 powi (- 1022)" by simp
  with assms have "0 < \<bar>x\<bar>" by linarith
  then have x: "x \<noteq> 0" by simp
  have b: "- 1022 \<le> binade x"
  proof (rule ccontr)
    assume "\<not> - 1022 \<le> binade x"
    then have "binade x + 1 \<le> - 1022" by simp
    then have "(2::rat) powi (binade x + 1) \<le> 2 powi (- 1022)"
      by (intro power_int_increasing) simp_all
    with binade_bounds(2)[OF x] assms show False by linarith
  qed
  define q where "q = binade x - 52"
  define m where "m = x / 2 powi q"
  have qpos: "(0::rat) < 2 powi q" by simp
  have rd: "round_double x = of_int (round_half_even m) * 2 powi q"
    using x b by (simp add: round_double_def Let_def q_def m_def max_def)
  have xm: "x = m * 2 powi q" by (simp add: m_def)
  have "\<bar>round_double x - x\<bar> = \<bar>of_int (round_half_even m) - m\<bar> * 2 powi q"
  proof -
    have "round_double x - x = (of_int (round_half_even m) - m) * 2 powi q"
      unfolding rd using xm by (simp add: left_diff_distrib)
    then show ?thesis by (simp add: abs_mult)
  qed
  also have "\<dots> \<le> 1 / 2 * 2 powi q"
    by (intro mult_right_mono round_half_even_error) simp
  also have "\<dots> = 2 powi (binade x) / 2 ^ 53"
    by (simp add: q_def power_int_diff)
  also have "\<dots> \<le> \<bar>x\<bar> / 2 ^ 53"
    using binade_bounds(1)[OF x] by (simp add: divide_right_mono)
  finally show ?thesis .
qed

lemma round_double_of_int:
  assumes "\<bar>a\<bar> < 2 ^ 53"
  shows "round_double (of_int a) = of_int a"
proof (cases "a = 0")
  case True
  then show ?thesis by (simp add: round_double_def)
next
  case False
  let ?x = "of_int a :: rat"
  have x: "?x \<noteq> 0" using False by simp
  have "\<bar>?x\<bar> < 2 ^ 53" using assms by (metis of_int_abs of_int_less_numeral_power_cancel_iff)
  then have "(2::rat) powi (binade ?x) < 2 powi 53"
    using binade_bounds(1)[OF x] by simp
  then have b: "binade ?x \<le> 52"
    using power_int_increasing[of 53 "binade ?x" "2::rat"] by (cases "binade ?x \<le> 52") auto
  define q where "q = max (binade ?x) (- 1022) - 52"
  have q: "q \<le> 0" using b by (simp add: q_def)
  have "?x / 2 powi q = ?x * 2 powi (- q)" by (simp add: power_int_minus field_simps)
  also have "\<dots> = of_int (a * 2 ^ nat (- q))" using q by (simp add: power_int_def)
  finally have m: "?x / 2 powi q = of_int (a * 2 ^ nat (- q))" .
  have "round_double ?x = of_int (a * 2 ^ nat (- q)) * 2 powi q"
    using x by (simp add: round_double_def Let_def q_def[symmetric] m round_half_even_of_int
        del: of_int_mult of_int_power)
  also have "\<dots> = ?x * (2 powi (- q) * 2 powi q)" using q by (simp add: power_int_def)
  also have "\<dots> = ?x" by (simp add: power_int_minus)
  finally show ?thesis .
qed

lemma py_float_exact:
  assumes "\<bar>a\<bar> < 2 ^ 53"
  shows "py_float a = Inr (of_int a)"
proof -
  have "\<bar>a\<bar> < 2 ^ 1024" using assms by simp
  then have "\<bar>of_int a :: rat\<bar> < 2 ^ 1024"
    by (metis of_int_abs of_int_less_numeral_power_cancel_iff)
  then show ?thesis
    by (simp add: py_float_def round_double_of_int[OF assms] Let_def)
qed

lemma round_double_quotient_ceiling:
  fixes a b :: int
  assumes "1 \<le> a" and "a < 2 ^ 53" and "1 \<le> b" and "b < 2 ^ 53"
  shows "\<lceil>round_double (of_int a / of_int b)\<rceil> = \<lceil>(of_int a :: rat) / of_int b\<rceil>"
proof -
  define x where "x = (of_int a :: rat) / of_int b"
  define n where "n = \<lceil>x\<rceil>"
  define d where "d = x / 2 ^ 53"
  define q where "q = round_double x"
  have bq: "(0::rat) < of_int b" and aq: "(1::rat) \<le> of_int a" using assms by simp_all
  have xpos: "0 < x" unfolding x_def using aq bq by simp
  have xb: "x * of_int b = of_int a" unfolding x_def using bq by simp
  have nx: "of_int n - 1 < x" "x \<le> of_int n"
    unfolding n_def using ceiling_correct[of x] by simp_all
  have a53: "(of_int a :: rat) < 2 ^ 53"
    using assms(2) by (metis of_int_less_numeral_power_cancel_iff)
  have db: "d * of_int b < 1"
  proof -
    have "d * of_int b = of_int a / 2 ^ 53" using xb by (simp add: d_def)
    also have "\<dots> < 1" using a53 by simp
    finally show ?thesis .
  qed
  have lo_int: "(n - 1) * b < a"
  proof -
    have "(of_int n - 1) * of_int b < x * (of_int b :: rat)"
      using nx(1) bq by (intro mult_strict_right_mono)
    then have "(of_int ((n - 1) * b) :: rat) < of_int a" using xb by simp
    then show ?thesis by (simp only: of_int_less_iff)
  qed
  have hi_int: "a \<le> n * b"
  proof -
    have "x * (of_int b :: rat) \<le> of_int n * of_int b"
      using nx(2) bq by (intro mult_right_mono) simp_all
    then have "(of_int a :: rat) \<le> of_int (n * b)" using xb by simp
    then show ?thesis by (simp only: of_int_le_iff)
  qed
  have big: "2 powi (- 1022) \<le> \<bar>x\<bar>"
  proof -
    have b53: "(of_int b :: rat) \<le> 2 powi 53"
      using assms(4) by (simp add: less_imp_le)
    have "(2::rat) powi (- 1022) * of_int b \<le> 2 powi (- 1022) * 2 powi 53"
      using b53 by (intro mult_left_mono) simp_all
    also have "\<dots> = 2 powi (- 969)" by (simp add: power_int_add[symmetric])
    also have "\<dots> \<le> 2 powi 0" by (intro power_int_increasing) simp_all
    also have "\<dots> \<le> of_int a" using aq by simp
    finally have "(2::rat) powi (- 1022) * of_int b \<le> of_int a" .
    then have "(2::rat) powi (- 1022) \<le> x"
      unfolding x_def using bq by (simp add: pos_le_divide_eq)
    with xpos show ?thesis by simp
  qed
  have err: "\<bar>q - x\<bar> \<le> d"
    unfolding q_def d_def using round_double_error[OF big] xpos by simp
  have lower: "of_int n - 1 < q"
  proof -
    from lo_int have "(n - 1) * b + 1 \<le> a" by simp
    then have "(of_int ((n - 1) * b + 1) :: rat) \<le> of_int a" by (simp only: of_int_le_iff)
    then have "(of_int n - 1) * of_int b + 1 \<le> x * (of_int b :: rat)" using xb by simp
    with db have "(of_int n - 1) * of_int b + d * of_int b < x * (of_int b :: rat)" by linarith
    then have "(of_int n - 1 + d) * of_int b < x * (of_int b :: rat)" by (simp add: algebra_simps)
    then have "of_int n - 1 + d < x" using bq by (simp only: mult_less_cancel_right_pos)
    with err show ?thesis by (simp add: abs_le_iff)
  qed
  have upper: "q \<le> of_int n"
  proof (cases "a = n * b")
    case True
    have "1 \<le> n" using xpos nx(2) by (simp add: n_def)
    moreover have "n \<le> a"
    proof -
      have "n * 1 \<le> n * b" using assms(3) \<open>1 \<le> n\<close> by (intro mult_left_mono) simp_all
      with True show ?thesis by simp
    qed
    ultimately have n53: "\<bar>n\<bar> < 2 ^ 53" using assms(2) by simp
    have "x = of_int n" unfolding x_def True using bq by simp
    then show ?thesis unfolding q_def by (simp add: round_double_of_int[OF n53])
  next
    case False
    with hi_int have "a + 1 \<le> n * b" by simp
    then have "(of_int (a + 1) :: rat) \<le> of_int (n * b)" by (simp only: of_int_le_iff)
    then have "x * of_int b + 1 \<le> of_int n * (of_int b :: rat)" using xb by simp
    with db have "x * of_int b + d * of_int b < of_int n * (of_int b :: rat)" by linarith
    then have "(x + d) * of_int b < of_int n * (of_int b :: rat)" by (simp add: algebra_simps)
    then have "x + d < of_int n" using bq by (simp only: mult_less_cancel_right_pos)
    with err show ?thesis by (simp add: abs_le_iff)
  qed
  have "\<lceil>q\<rceil> = n" using lower upper by (intro ceiling_unique) simp_all
  then show ?thesis by (simp add: q_def n_def x_def)
qed

lemma ceil_div_exact:
  assumes "0 \<le> a" and "a < 2 ^ 53" and "1 \<le> b" and "b < 2 ^ 53"
  shows "ceil_div a b = Inr \<lceil>(of_int a :: rat) / of_int b\<rceil>"
proof -
  have fa: "py_float a = Inr (of_int a)" and fb: "py_float b = Inr (of_int b)"
    using assms by (simp_all add: py_float_exact)
  have b0: "(of_int b :: rat) \<noteq> 0" using assms(3) by simp
  show ?thesis
  proof (cases "a = 0")
    case True
    have "py_float 0 = Inr 0" using py_float_exact[of 0] by simp
    then show ?thesis
      using b0 True by (simp add: ceil_div_def float_truediv_def fb round_double_def)
  next
    case False
    with assms(1) have "1 \<le> a" by simp
    from round_double_quotient_ceiling[OF this assms(2,3,4)] b0 show ?thesis
      by (simp add: ceil_div_def float_truediv_def fa fb)
  qed
qed

lemma ceil_div_zero: "\<bar>a\<bar> < 2 ^ 53 \<Longrightarrow> ceil_div a 0 = Inl ZeroDivisionError"
proof -
  assume a: "\<bar>a\<bar> < 2 ^ 53"
  have "py_float 0 = Inr 0" using py_float_exact[of 0] by simp
  then show ?thesis
    by (simp add: ceil_div_def float_truediv_def py_float_exact[OF a])
qed










subsection \<open>Indexing and the two aggregation loops\<close>

text \<open>
  Each loop visits every attribute name once and writes only the attribute it visits, so
  it amounts to one simultaneous assignment.
\<close>

lemma py_index_last: "xs \<noteq> [] \<Longrightarrow> py_index xs (- 1) = Inr (last xs)"
  by (cases xs rule: rev_cases) (auto simp: py_index_def nth_append)

lemma py_index_in_range:
  "0 \<le> i \<Longrightarrow> i < int (length xs) \<Longrightarrow> py_index xs i = Inr (xs ! nat i)"
  by (simp add: py_index_def)

lemma distinct_data_attrs: "distinct data_attrs"
  by (simp add: data_attrs_def)

lemma set_data_attrs: "a \<in> set data_attrs"
  by (cases a) (simp_all add: data_attrs_def)

lemma new_attr_val_cong:
  "t a = trajectory s a \<Longrightarrow> new_attr_val E (s\<lparr>trajectory := t\<rparr>) a = new_attr_val E s a"
  by (simp add: new_attr_val_def Let_def)

lemma fold_setattr:
  "distinct as \<Longrightarrow>
   fold (\<lambda>data_attr self. setattr_trajectory data_attr (new_attr_val E self data_attr) self)
     as s
   = s\<lparr>trajectory := (\<lambda>a. if a \<in> set as then new_attr_val E s a else trajectory s a)\<rparr>"
proof (induction as arbitrary: s)
  case Nil
  then show ?case by simp
next
  case (Cons a as)
  let ?s1 = "setattr_trajectory a (new_attr_val E s a) s"
  from Cons.prems have notin: "a \<notin> set as" and dist: "distinct as" by simp_all
  have same: "new_attr_val E ?s1 b = new_attr_val E s b" if "b \<in> set as" for b
  proof -
    from that notin have "b \<noteq> a" by auto
    then show ?thesis by (simp add: setattr_trajectory_def new_attr_val_cong)
  qed
  have fn: "(\<lambda>b. if b \<in> set as then new_attr_val E ?s1 b else trajectory ?s1 b)
          = (\<lambda>b. if b \<in> set (a # as) then new_attr_val E s b else trajectory s b)"
    using notin same by (auto simp: fun_eq_iff) (simp_all add: setattr_trajectory_def)
  show ?case
    by (simp add: Cons.IH[OF dist] fn) (simp add: setattr_trajectory_def)
qed

lemma aggregate_mcts_data_eq:
  "aggregate_mcts_data E s = s\<lparr>trajectory := (\<lambda>a. new_attr_val E s a)\<rparr>"
  by (simp add: aggregate_mcts_data_def fold_setattr distinct_data_attrs set_data_attrs)

lemma set_policy_data_attrs: "p \<in> set policy_data_attrs"
  by (cases p) (simp_all add: policy_data_attrs_def)

lemma new_policy_attr_val_cong:
  "new_policy_attr_val E (s\<lparr>policy_trajectory := t\<rparr>) p = new_policy_attr_val E s p"
  by (simp add: new_policy_attr_val_def)

lemma fold_policy_setattr:
  "fold (\<lambda>data_attr self.
           setattr_policy_trajectory data_attr (new_policy_attr_val E self data_attr) self)
     ps s
   = s\<lparr>policy_trajectory :=
        (\<lambda>p. if p \<in> set ps then new_policy_attr_val E s p else policy_trajectory s p)\<rparr>"
proof (induction ps arbitrary: s)
  case Nil
  then show ?case by simp
next
  case (Cons a ps)
  let ?s1 = "setattr_policy_trajectory a (new_policy_attr_val E s a) s"
  have fn: "(\<lambda>p. if p \<in> set ps then new_policy_attr_val E ?s1 p else policy_trajectory ?s1 p)
          = (\<lambda>p. if p \<in> set (a # ps) then new_policy_attr_val E s p else policy_trajectory s p)"
    by (auto simp: fun_eq_iff setattr_policy_trajectory_def new_policy_attr_val_cong)
  show ?case
    by (simp add: Cons.IH fn) (simp add: setattr_policy_trajectory_def)
qed

lemma aggregate_policy_data_eq:
  "aggregate_policy_data E s =
     s\<lparr>policy_trajectory := (\<lambda>p. new_policy_attr_val E s p)\<rparr>"
  by (simp add: aggregate_policy_data_def fold_policy_setattr set_policy_data_attrs)

subsection \<open>The ceiling quotient and the sub-spans of a segment\<close>

lemma ceil_bounds:
  fixes L U :: int
  assumes "0 < U"
  defines "n \<equiv> \<lceil>(of_int L :: rat) / of_int U\<rceil>"
  shows "(n - 1) * U < L" and "L \<le> n * U"
proof -
  have U: "(0::rat) < of_int U" using assms(1) by simp
  have "of_int n - 1 < (of_int L :: rat) / of_int U" and "(of_int L :: rat) / of_int U \<le> of_int n"
    unfolding n_def using ceiling_correct[of "(of_int L :: rat) / of_int U"] by simp_all
  then have "(of_int n - 1) * of_int U < (of_int L :: rat)" and "(of_int L :: rat) \<le> of_int n * of_int U"
    using U by (simp_all add: pos_less_divide_eq pos_divide_le_eq)
  then have "(of_int ((n - 1) * U) :: rat) < of_int L" and "(of_int L :: rat) \<le> of_int (n * U)"
    by simp_all
  then show "(n - 1) * U < L" and "L \<le> n * U"
    by (simp_all only: of_int_less_iff of_int_le_iff)
qed




lemma search_rollout_event:
  "search_rollout E sp s = Inr (s', ev) \<Longrightarrow> ev = Search_rollout (fst sp) (snd sp)"
  by (auto simp: search_rollout_def Let_def split: sum.splits)

lemma run_inits_events:
  "run_inits E spans s = Inr (s', evs) \<Longrightarrow>
     evs = map (\<lambda>sp. Search_rollout (fst sp) (snd sp)) spans"
  by (induction spans arbitrary: s s' evs)
     (auto split: sum.splits prod.splits dest: search_rollout_event)

subsection \<open>What the search loop leaves unchanged\<close>

lemma search_rollout_frame:
  assumes "search_rollout E sp s = Inr (s', ev)"
  shows "master_game s' = master_game s \<and> len_segment s' = len_segment s
       \<and> sampling_step s' = sampling_step s \<and> mcts_start_step s' = mcts_start_step s
       \<and> mcts_end_step s' = mcts_end_step s \<and> mcts_enable s' = mcts_enable s
       \<and> mcts_collect_data_freq s' = mcts_collect_data_freq s
       \<and> first_mcts s' = first_mcts s \<and> mcts_sampling s' = mcts_sampling s
       \<and> policy_trajectory s' = policy_trajectory s \<and> checkpoint_dir s' = checkpoint_dir s"
  using assms
  by (auto simp: search_rollout_def aggregate_mcts_data_eq Let_def split: sum.splits)

lemma run_inits_frame:
  "run_inits E spans s = Inr (s', evs) \<Longrightarrow>
   master_game s' = master_game s \<and> len_segment s' = len_segment s
       \<and> sampling_step s' = sampling_step s \<and> mcts_start_step s' = mcts_start_step s
       \<and> mcts_end_step s' = mcts_end_step s \<and> mcts_enable s' = mcts_enable s
       \<and> mcts_collect_data_freq s' = mcts_collect_data_freq s
       \<and> first_mcts s' = first_mcts s \<and> mcts_sampling s' = mcts_sampling s
       \<and> policy_trajectory s' = policy_trajectory s \<and> checkpoint_dir s' = checkpoint_dir s"
proof (induction spans arbitrary: s s' evs)
  case Nil
  then show ?case by simp
next
  case (Cons sp spans)
  then obtain s1 ev evs1 where 1: "search_rollout E sp s = Inr (s1, ev)"
    and 2: "run_inits E spans s1 = Inr (s', evs1)"
    by (auto split: sum.splits prod.splits)
  from search_rollout_frame[OF 1] Cons.IH[OF 2] show ?case by simp
qed

lemma run_segments_frame:
  "run_segments E base lens s = Inr (s', evs) \<Longrightarrow>
   master_game s' = master_game s \<and> len_segment s' = len_segment s
       \<and> sampling_step s' = sampling_step s \<and> mcts_start_step s' = mcts_start_step s
       \<and> mcts_end_step s' = mcts_end_step s \<and> mcts_enable s' = mcts_enable s
       \<and> mcts_collect_data_freq s' = mcts_collect_data_freq s
       \<and> first_mcts s' = first_mcts s \<and> mcts_sampling s' = mcts_sampling s
       \<and> policy_trajectory s' = policy_trajectory s \<and> checkpoint_dir s' = checkpoint_dir s"
proof (induction lens arbitrary: base s s' evs)
  case Nil
  then show ?case by simp
next
  case (Cons L lens)
  then obtain n s1 evs1 evs2 where
    1: "run_inits E (sub_spans base L (len_segment s) n) s = Inr (s1, evs1)"
    and 2: "run_segments E (base + L) lens s1 = Inr (s', evs2)"
    by (auto split: sum.splits prod.splits)
  from run_inits_frame[OF 1] Cons.IH[OF 2] show ?case by simp
qed

lemma run_segments_no_handoff:
  "run_segments E base lens s = Inr (s', evs) \<Longrightarrow> Stats_handoff \<notin> set evs"
proof (induction lens arbitrary: base s s' evs)
  case Nil
  then show ?case by simp
next
  case (Cons L lens)
  then obtain n s1 evs1 evs2 where
    1: "run_inits E (sub_spans base L (len_segment s) n) s = Inr (s1, evs1)"
    and 2: "run_segments E (base + L) lens s1 = Inr (s', evs2)"
    and 3: "evs = evs1 @ evs2"
    by (auto split: sum.splits prod.splits)
  from run_inits_events[OF 1] Cons.IH[OF 2] 3 show ?case by auto
qed

lemma mcts_sample_enable_run_master:
  "mcts_sample_enable (run_master E m t s) = mcts_sample_enable s"
  by (simp add: mcts_sample_enable_def run_master_def Let_def)

lemma mcts_sampling_step_frame:
  assumes "mcts_sampling_step E m t s = Inr (s', evs)"
  shows "master_game s' = master_game s \<and> len_segment s' = len_segment s
       \<and> sampling_step s' = sampling_step s \<and> mcts_start_step s' = mcts_start_step s
       \<and> mcts_end_step s' = mcts_end_step s \<and> mcts_enable s' = mcts_enable s
       \<and> mcts_collect_data_freq s' = mcts_collect_data_freq s
       \<and> first_mcts s' = first_mcts s \<and> mcts_sampling s' = True
       \<and> checkpoint_dir s' = checkpoint_dir s
       \<and> policy_trajectory s' = (\<lambda>p. new_policy_attr_val E s p)
       \<and> Stats_handoff \<notin> set evs"
proof -
  let ?s1 = "(initialize_policy_episode_data (initialize_episode_data s))\<lparr>mcts_sampling := True\<rparr>"
  let ?src = "update_estimator E t (mcts_game ?s1, rms_store ?s1)"
  let ?s2 = "?s1\<lparr>mcts_game := fst ?src, rms_store := snd ?src\<rparr>"
  from assms obtain lens s3 where
    1: "process_trajectory_lengths (master_game ?s2) m = Inr lens"
    and 2: "run_segments E 0 lens ?s2 = Inr (s3, evs)"
    and 3: "s' = aggregate_policy_data E s3"
    by (auto simp: mcts_sampling_step_def Let_def split: sum.splits prod.splits)
  have np: "new_policy_attr_val E s3 = new_policy_attr_val E s"
    using run_segments_frame[OF 2]
    by (simp add: fun_eq_iff new_policy_attr_val_def initialize_policy_episode_data_def
        initialize_episode_data_def)
  from run_segments_frame[OF 2] run_segments_no_handoff[OF 2] 3 np show ?thesis
    by (simp add: aggregate_policy_data_eq initialize_policy_episode_data_def
        initialize_episode_data_def)
qed

subsection \<open>The three ways through \<open>play\<close>\<close>

lemma run_master_fields:
  "len_segment (run_master E m t s) = len_segment s"
  "sampling_step (run_master E m t s) = sampling_step s"
  "mcts_start_step (run_master E m t s) = mcts_start_step s"
  "mcts_end_step (run_master E m t s) = mcts_end_step s"
  "mcts_enable (run_master E m t s) = mcts_enable s"
  "mcts_collect_data_freq (run_master E m t s) = mcts_collect_data_freq s"
  "first_mcts (run_master E m t s) = first_mcts s"
  "mcts_sampling (run_master E m t s) = mcts_sampling s"
  "trajectory (run_master E m t s) = trajectory s"
  "policy_trajectory (run_master E m t s) = policy_trajectory s"
  "checkpoint_dir (run_master E m t s) = checkpoint_dir s"
  by (simp_all add: run_master_def Let_def)

lemma stats_handoff_fields:
  "len_segment (fst (stats_handoff s)) = len_segment s"
  "sampling_step (fst (stats_handoff s)) = sampling_step s"
  "mcts_start_step (fst (stats_handoff s)) = mcts_start_step s"
  "mcts_end_step (fst (stats_handoff s)) = mcts_end_step s"
  "mcts_enable (fst (stats_handoff s)) = mcts_enable s"
  "mcts_collect_data_freq (fst (stats_handoff s)) = mcts_collect_data_freq s"
  "first_mcts (fst (stats_handoff s)) = False"
  "mcts_sampling (fst (stats_handoff s)) = mcts_sampling s"
  "trajectory (fst (stats_handoff s)) = trajectory s"
  "policy_trajectory (fst (stats_handoff s)) = policy_trajectory s"
  "master_game (fst (stats_handoff s)) = master_game s"
  "checkpoint_dir (fst (stats_handoff s)) = checkpoint_dir s"
  "snd (stats_handoff s) = (if first_mcts s then [Stats_handoff] else [])"
  by (simp_all add: stats_handoff_def)

lemma policy_sampling_fields:
  "len_segment (policy_sampling E s) = len_segment s"
  "sampling_step (policy_sampling E s) = sampling_step s"
  "mcts_start_step (policy_sampling E s) = mcts_start_step s"
  "mcts_end_step (policy_sampling E s) = mcts_end_step s"
  "mcts_enable (policy_sampling E s) = mcts_enable s"
  "mcts_collect_data_freq (policy_sampling E s) = mcts_collect_data_freq s"
  "first_mcts (policy_sampling E s) = first_mcts s"
  "mcts_sampling (policy_sampling E s) = False"
  "master_game (policy_sampling E s) = master_game s"
  "checkpoint_dir (policy_sampling E s) = checkpoint_dir s"
  "policy_trajectory (policy_sampling E s) = (\<lambda>p. new_policy_attr_val E s p)"
  by (simp_all add: policy_sampling_def aggregate_policy_data_eq aggregate_mcts_data_eq
      initialize_policy_episode_data_def initialize_episode_data_def new_policy_attr_val_def)

lemma play_not_eligible:
  "\<not> mcts_sample_enable s \<Longrightarrow>
   play E m t s =
     Inr ((policy_sampling E (run_master E m t s))\<lparr>sampling_step := sampling_step s + 1\<rparr>, [])"
  by (simp add: play_def Let_def mcts_sample_enable_run_master policy_sampling_fields
      run_master_fields)

lemma play_gated:
  assumes "mcts_sample_enable s" and "mcts_collect_data_freq s \<noteq> 0"
    and "(sampling_step s - mcts_start_step s) mod mcts_collect_data_freq s \<noteq> 0"
  shows "play E m t s =
     Inr ((fst (stats_handoff (run_master E m t s)))\<lparr>sampling_step := sampling_step s + 1\<rparr>,
          snd (stats_handoff (run_master E m t s)))"
  using assms
  by (simp add: play_def Let_def mcts_sample_enable_run_master py_mod_def split_beta
      stats_handoff_fields(1-12) run_master_fields)

lemma play_search:
  assumes "mcts_sample_enable s"
    and "(sampling_step s - mcts_start_step s) mod mcts_collect_data_freq s = 0"
    and "play E m t s = Inr (s', evs)"
  shows "\<exists>s2 evs2. mcts_sampling_step E m t (fst (stats_handoff (run_master E m t s)))
                      = Inr (s2, evs2)
           \<and> s' = s2\<lparr>sampling_step := sampling_step s2 + 1\<rparr>
           \<and> evs = snd (stats_handoff (run_master E m t s)) @ evs2"
  using assms
  by (auto simp: play_def Let_def mcts_sample_enable_run_master py_mod_def split_beta
      stats_handoff_fields(1-12) run_master_fields split: sum.splits if_splits)

lemma play_raises_on_zero_freq:
  "mcts_sample_enable s \<Longrightarrow> mcts_collect_data_freq s = 0 \<Longrightarrow>
   play E m t s = Inl ZeroDivisionError"
  by (simp add: play_def Let_def mcts_sample_enable_run_master py_mod_def split_beta
      stats_handoff_fields(1-12) run_master_fields)

text \<open>One call: what it does to the scheduling attributes and when it hands the statistics over.\<close>

lemma play_step:
  assumes "play E m t s = Inr (s', evs)"
  shows "sampling_step s' = sampling_step s + 1
       \<and> mcts_start_step s' = mcts_start_step s \<and> mcts_end_step s' = mcts_end_step s
       \<and> mcts_enable s' = mcts_enable s
       \<and> mcts_collect_data_freq s' = mcts_collect_data_freq s
       \<and> len_segment s' = len_segment s
       \<and> first_mcts s' = (first_mcts s \<and> \<not> mcts_sample_enable s)
       \<and> (Stats_handoff \<in> set evs) = (mcts_sample_enable s \<and> first_mcts s)
       \<and> count_list evs Stats_handoff = (if mcts_sample_enable s \<and> first_mcts s then 1 else 0)"
proof (cases "mcts_sample_enable s")
  case False
  with assms show ?thesis
    by (auto simp: play_not_eligible policy_sampling_fields run_master_fields)
next
  case True
  note elig = this
  have f0: "mcts_collect_data_freq s \<noteq> 0"
    using assms elig play_raises_on_zero_freq[of s E m t] by auto
  show ?thesis
  proof (cases "(sampling_step s - mcts_start_step s) mod mcts_collect_data_freq s = 0")
    case False
    from play_gated[OF elig f0 False, of E m t] assms show ?thesis
      using elig by (auto simp: stats_handoff_fields run_master_fields)
  next
    case True
    from play_search[OF elig True assms] obtain s2 evs2 where
      1: "mcts_sampling_step E m t (fst (stats_handoff (run_master E m t s))) = Inr (s2, evs2)"
      and 2: "s' = s2\<lparr>sampling_step := sampling_step s2 + 1\<rparr>"
      and 3: "evs = snd (stats_handoff (run_master E m t s)) @ evs2"
      by blast
    have nh: "count_list evs2 Stats_handoff = 0"
      using mcts_sampling_step_frame[OF 1] by (simp add: count_list_0_iff)
    from mcts_sampling_step_frame[OF 1] 2 3 elig nh show ?thesis
      by (auto simp: stats_handoff_fields run_master_fields)
  qed
qed

subsection \<open>When the search loop completes\<close>

lemma sub_spans_in_range:
  assumes "1 \<le> U" and "sp \<in> set (sub_spans base L U \<lceil>(of_int L :: rat) / of_int U\<rceil>)"
  shows "base \<le> fst sp \<and> fst sp < base + L"
proof -
  let ?n = "\<lceil>(of_int L :: rat) / of_int U\<rceil>"
  from assms(2) obtain i where i: "i < nat ?n" and sp: "fst sp = base + U * int i"
    by (auto simp: sub_spans_def py_range_def Let_def)
  from i have "int i \<le> ?n - 1" by linarith
  with assms(1) have "U * int i \<le> U * (?n - 1)" by (intro mult_left_mono) simp_all
  also have "\<dots> < L" using ceil_bounds(1)[of U L] assms(1) by (simp add: mult.commute)
  finally have "U * int i < L" .
  moreover have "0 \<le> U * int i" using assms(1) by simp
  ultimately show ?thesis using sp by simp
qed

lemma search_rollout_ok:
  assumes "0 \<le> fst sp" and "fst sp < int (length (env_states (master_game s)))"
    and "fst sp < int (length (arr_elems (trajectory_actions (master_game s))))"
  shows "search_rollout E sp s
           = Inr (launch E (fst sp) (snd sp) s, Search_rollout (fst sp) (snd sp))"
  using assms by (simp add: search_rollout_def py_index_in_range Let_def launch_def)

lemma launch_master_game: "master_game (launch E i h s) = master_game s"
  by (simp add: launch_def Let_def aggregate_mcts_data_eq)

lemma search_rollout_error:
  "search_rollout E sp s = Inl e \<Longrightarrow> e = IndexError"
  by (auto simp: search_rollout_def py_index_def Let_def split: sum.splits if_splits)

lemma run_inits_error:
  "run_inits E spans s = Inl e \<Longrightarrow> e = IndexError"
  by (induction spans arbitrary: s)
     (auto split: sum.splits prod.splits dest: search_rollout_error)

lemma run_inits_launches:
  assumes "\<forall>sp \<in> set spans. 0 \<le> fst sp
             \<and> fst sp < int (length (env_states (master_game s)))
             \<and> fst sp < int (length (arr_elems (trajectory_actions (master_game s))))"
  shows "run_inits E spans s
           = Inr (launches E spans s, map (\<lambda>sp. Search_rollout (fst sp) (snd sp)) spans)"
  using assms
proof (induction spans arbitrary: s)
  case Nil
  then show ?case by simp
next
  case (Cons sp spans)
  from Cons.prems have
    1: "search_rollout E sp s
          = Inr (launch E (fst sp) (snd sp) s, Search_rollout (fst sp) (snd sp))"
    by (intro search_rollout_ok) simp_all
  have "run_inits E spans (launch E (fst sp) (snd sp) s)
          = Inr (launches E spans (launch E (fst sp) (snd sp) s),
                 map (\<lambda>sp. Search_rollout (fst sp) (snd sp)) spans)"
    using Cons.prems by (intro Cons.IH) (simp add: launch_master_game)
  with 1 show ?case by simp
qed

lemma run_inits_ok:
  assumes "\<forall>sp \<in> set spans. 0 \<le> fst sp
             \<and> fst sp < int (length (env_states (master_game s)))
             \<and> fst sp < int (length (arr_elems (trajectory_actions (master_game s))))"
  shows "\<exists>s' evs. run_inits E spans s = Inr (s', evs)"
  using run_inits_launches[OF assms] by simp

lemma run_segments_ok:
  assumes "1 \<le> len_segment s" and "0 \<le> base" and "\<forall>l \<in> set lens. 0 \<le> l"
    and "base + sum_list lens \<le> int (length (env_states (master_game s)))"
    and "base + sum_list lens \<le> int (length (arr_elems (trajectory_actions (master_game s))))"
    and "len_segment s < 2 ^ 53" and "base + sum_list lens < 2 ^ 53"
  shows "\<exists>s' evs. run_segments E base lens s = Inr (s', evs)
           \<and> (\<forall>ev \<in> set evs. \<exists>i h. ev = Search_rollout i h
                  \<and> base \<le> i \<and> i < base + sum_list lens)"
  using assms
proof (induction lens arbitrary: base s)
  case Nil
  then show ?case by simp
next
  case (Cons L lens)
  let ?U = "len_segment s"
  let ?n = "\<lceil>(of_int L :: rat) / of_int ?U\<rceil>"
  let ?spans = "sub_spans base L ?U ?n"
  from Cons.prems have L0: "0 \<le> L" and rest0: "\<forall>l \<in> set lens. 0 \<le> l" by simp_all
  then have sum0: "0 \<le> sum_list lens" by (simp add: sum_list_nonneg)
  have "L < 2 ^ 53" using Cons.prems(2,7) sum0 by simp
  then have cd: "ceil_div L ?U = Inr ?n"
    using L0 Cons.prems(1,6) by (intro ceil_div_exact) simp_all
  have rng: "base \<le> fst sp \<and> fst sp < base + L" if "sp \<in> set ?spans" for sp
    using sub_spans_in_range[OF Cons.prems(1) that] .
  have "\<forall>sp \<in> set ?spans. 0 \<le> fst sp
             \<and> fst sp < int (length (env_states (master_game s)))
             \<and> fst sp < int (length (arr_elems (trajectory_actions (master_game s))))"
    using rng Cons.prems(2,4,5) sum0 by fastforce
  from run_inits_ok[OF this] obtain s1 evs1 where
    1: "run_inits E ?spans s = Inr (s1, evs1)" by blast
  note fr = run_inits_frame[OF 1]
  have "\<exists>s' evs. run_segments E (base + L) lens s1 = Inr (s', evs)
           \<and> (\<forall>ev \<in> set evs. \<exists>i h. ev = Search_rollout i h
                  \<and> base + L \<le> i \<and> i < base + L + sum_list lens)"
    using Cons.prems L0 rest0 fr by (intro Cons.IH) (simp_all add: add.assoc)
  then obtain s2 evs2 where 2: "run_segments E (base + L) lens s1 = Inr (s2, evs2)"
    and ev2: "\<forall>ev \<in> set evs2. \<exists>i h. ev = Search_rollout i h
                  \<and> base + L \<le> i \<and> i < base + L + sum_list lens"
    by blast
  have ev1: "\<forall>ev \<in> set evs1. \<exists>i h. ev = Search_rollout i h \<and> base \<le> i \<and> i < base + L"
    using run_inits_events[OF 1] rng by auto
  have res: "run_segments E base (L # lens) s = Inr (s2, evs1 @ evs2)"
    using cd 1 2 by simp
  have "\<forall>ev \<in> set (evs1 @ evs2). \<exists>i h. ev = Search_rollout i h
                  \<and> base \<le> i \<and> i < base + sum_list (L # lens)"
  proof
    fix ev assume "ev \<in> set (evs1 @ evs2)"
    then consider "ev \<in> set evs1" | "ev \<in> set evs2" by auto
    then show "\<exists>i h. ev = Search_rollout i h \<and> base \<le> i \<and> i < base + sum_list (L # lens)"
    proof cases
      case 1
      with ev1 obtain i h where "ev = Search_rollout i h" "base \<le> i" "i < base + L" by blast
      with sum0 show ?thesis by auto
    next
      case 2
      with ev2 obtain i h where "ev = Search_rollout i h" "base + L \<le> i"
        "i < base + L + sum_list lens" by blast
      with L0 show ?thesis by auto
    qed
  qed
  with res show ?case by blast
qed

subsection \<open>The episode record of a rollout buffer\<close>

text \<open>
  The episode lengths that \<open>dones\<close> determines are positive, and they sum to the number of
  steps up to and including the last terminal one: to the length of \<open>dones\<close> exactly when
  the last step is terminal.
\<close>

lemma episode_lengths_from_pos:
  "0 \<le> n \<Longrightarrow> \<forall>l \<in> set (episode_lengths_from n ds). 0 < l"
proof (induction ds arbitrary: n)
  case Nil
  then show ?case by simp
next
  case (Cons d ds)
  have 0: "\<forall>l \<in> set (episode_lengths_from 0 ds). 0 < l" by (rule Cons.IH) simp
  have 1: "\<forall>l \<in> set (episode_lengths_from (n + 1) ds). 0 < l"
    using Cons.prems by (intro Cons.IH) simp
  from 0 1 Cons.prems show ?case by simp
qed

lemma episode_lengths_from_sum:
  "0 \<le> n \<Longrightarrow>
   sum_list (episode_lengths_from n ds) \<le> n + int (length ds)
   \<and> (sum_list (episode_lengths_from n ds) = n + int (length ds))
       = (if ds = [] then n = 0 else last ds)"
proof (induction ds arbitrary: n)
  case Nil
  then show ?case by auto
next
  case (Cons d ds)
  show ?case
  proof (cases d)
    case True
    from Cons.IH[of 0] True show ?thesis by auto
  next
    case False
    from Cons.prems have "0 \<le> n + 1" by simp
    from Cons.IH[OF this] False Cons.prems show ?thesis by auto
  qed
qed

lemma episode_lengths_pos: "\<forall>l \<in> set (episode_lengths ds). 0 < l"
  unfolding episode_lengths_def by (rule episode_lengths_from_pos) simp

lemma episode_lengths_sum:
  "sum_list (episode_lengths ds) \<le> int (length ds)"
  "ds \<noteq> [] \<Longrightarrow> (sum_list (episode_lengths ds) = int (length ds)) = last ds"
  unfolding episode_lengths_def using episode_lengths_from_sum[of 0 ds] by simp_all


subsection \<open>The planner's result, and a call of \<open>play\<close> that completes\<close>

lemma map_int_of_int: "map int_of_int xs = xs"
  by (induction xs) (simp_all add: int_of_int_def)

lemma process_trajectory_lengths_eq:
  assumes "trajectory_dones g \<noteq> []"
  shows "process_trajectory_lengths g max_steps =
           Inr (if last (trajectory_dones g) then trajectory_per_episode_lengths g
                else if trajectory_per_episode_lengths g \<noteq> [] then
                  trajectory_per_episode_lengths g
                    @ [max_steps - sum_list (trajectory_per_episode_lengths g)]
                else [max_steps])"
  using assms by (simp add: process_trajectory_lengths_def py_index_last map_int_of_int)

lemma process_trajectory_lengths_sum:
  assumes "trajectory_dones g \<noteq> []"
    and "(sum_list (trajectory_per_episode_lengths g) = max_steps) = last (trajectory_dones g)"
    and "process_trajectory_lengths g max_steps = Inr segs"
  shows "sum_list segs = max_steps"
  using assms by (auto simp: process_trajectory_lengths_eq split: if_splits)

lemma process_trajectory_lengths_nonneg:
  assumes "trajectory_dones g \<noteq> []"
    and "sum_list (trajectory_per_episode_lengths g) \<le> max_steps"
    and "\<forall>l \<in> set (trajectory_per_episode_lengths g). 0 \<le> l"
    and "process_trajectory_lengths g max_steps = Inr segs"
  shows "\<forall>l \<in> set segs. 0 \<le> l"
proof -
  have "0 \<le> sum_list (trajectory_per_episode_lengths g)"
    using assms(3) by (simp add: sum_list_nonneg)
  with assms show ?thesis
    by (auto simp: process_trajectory_lengths_eq split: if_splits)
qed

lemma mcts_sampling_step_ok:
  assumes "1 \<le> len_segment s"
    and "trajectory_dones (master_game s) \<noteq> []"
    and "int (length (env_states (master_game s))) = m"
    and "int (length (arr_elems (trajectory_actions (master_game s)))) = m"
    and "sum_list (trajectory_per_episode_lengths (master_game s)) \<le> m"
    and "(sum_list (trajectory_per_episode_lengths (master_game s)) = m)
           = last (trajectory_dones (master_game s))"
    and "\<forall>l \<in> set (trajectory_per_episode_lengths (master_game s)). 0 \<le> l"
    and "len_segment s < 2 ^ 53" and "m < 2 ^ 53"
  shows "\<exists>s' evs. mcts_sampling_step E m t s = Inr (s', evs)
           \<and> (\<forall>ev \<in> set evs. \<exists>i h. ev = Search_rollout i h \<and> 0 \<le> i \<and> i < m)"
proof -
  let ?s1 = "(initialize_policy_episode_data (initialize_episode_data s))\<lparr>mcts_sampling := True\<rparr>"
  let ?src = "update_estimator E t (mcts_game ?s1, rms_store ?s1)"
  let ?s2 = "?s1\<lparr>mcts_game := fst ?src, rms_store := snd ?src\<rparr>"
  obtain segs where segs: "process_trajectory_lengths (master_game s) m = Inr segs"
    using assms(2) by (simp add: process_trajectory_lengths_eq)
  have sum: "sum_list segs = m"
    using process_trajectory_lengths_sum[OF assms(2,6) segs] .
  have nonneg: "\<forall>l \<in> set segs. 0 \<le> l"
    using process_trajectory_lengths_nonneg[OF assms(2,5,7) segs] .
  have "\<exists>s' evs. run_segments E 0 segs ?s2 = Inr (s', evs)
           \<and> (\<forall>ev \<in> set evs. \<exists>i h. ev = Search_rollout i h
                  \<and> 0 \<le> i \<and> i < 0 + sum_list segs)"
    using assms(1,3,4,8,9) nonneg sum
    by (intro run_segments_ok)
       (simp_all add: initialize_policy_episode_data_def initialize_episode_data_def)
  then obtain s3 evs where 3: "run_segments E 0 segs ?s2 = Inr (s3, evs)"
    and ev: "\<forall>ev \<in> set evs. \<exists>i h. ev = Search_rollout i h \<and> 0 \<le> i \<and> i < m"
    using sum by auto
  have "mcts_sampling_step E m t s = Inr (aggregate_policy_data E s3, evs)"
    using segs 3
    by (simp add: mcts_sampling_step_def Let_def initialize_policy_episode_data_def
        initialize_episode_data_def)
  with ev show ?thesis by blast
qed

lemma play_ok:
  assumes "mcts_collect_data_freq s \<noteq> 0" and "1 \<le> len_segment s"
    and "trajectory_dones (master_game (run_master E m t s)) \<noteq> []"
    and "int (length (env_states (master_game (run_master E m t s)))) = m"
    and "int (length (arr_elems (trajectory_actions (master_game (run_master E m t s))))) = m"
    and "sum_list (trajectory_per_episode_lengths (master_game (run_master E m t s))) \<le> m"
    and "(sum_list (trajectory_per_episode_lengths (master_game (run_master E m t s))) = m)
           = last (trajectory_dones (master_game (run_master E m t s)))"
    and "\<forall>l \<in> set (trajectory_per_episode_lengths (master_game (run_master E m t s))). 0 \<le> l"
    and "len_segment s < 2 ^ 53" and "m < 2 ^ 53"
  shows "\<exists>s' evs. play E m t s = Inr (s', evs)"
proof (cases "mcts_sample_enable s")
  case False
  then show ?thesis by (simp add: play_not_eligible)
next
  case True
  note elig = this
  show ?thesis
  proof (cases "(sampling_step s - mcts_start_step s) mod mcts_collect_data_freq s = 0")
    case False
    from play_gated[OF elig assms(1) False] show ?thesis by simp
  next
    case True
    let ?s1 = "fst (stats_handoff (run_master E m t s))"
    have "\<exists>s' evs. mcts_sampling_step E m t ?s1 = Inr (s', evs)
           \<and> (\<forall>ev \<in> set evs. \<exists>i h. ev = Search_rollout i h \<and> 0 \<le> i \<and> i < m)"
      using assms
      by (intro mcts_sampling_step_ok) (simp_all add: stats_handoff_fields run_master_fields)
    then obtain s2 evs2 where "mcts_sampling_step E m t ?s1 = Inr (s2, evs2)" by blast
    with elig True assms(1) show ?thesis
      by (simp add: play_def Let_def mcts_sample_enable_run_master py_mod_def split_beta
          stats_handoff_fields(1-12) run_master_fields)
  qed
qed

subsection \<open>Sequences of calls\<close>

lemma play_seq_Cons:
  assumes "play_seq E (call # calls) s = Inr (run, final)"
  obtains s1 evs run1 where "play E (fst call) (snd call) s = Inr (s1, evs)"
    and "play_seq E calls s1 = Inr (run1, final)" and "run = (s, evs) # run1"
  using assms by (auto split: sum.splits prod.splits)

lemma play_seq_length:
  "play_seq E calls s = Inr (run, final) \<Longrightarrow> length run = length calls"
proof (induction calls arbitrary: s run)
  case Nil
  then show ?case by simp
next
  case (Cons call calls)
  from Cons.prems show ?case
    by (rule play_seq_Cons) (use Cons.IH in auto)
qed

lemma play_seq_nth:
  "play_seq E calls s = Inr (run, final) \<Longrightarrow> k < length calls \<Longrightarrow>
   \<exists>s'. play E (fst (calls ! k)) (snd (calls ! k)) (fst (run ! k)) = Inr (s', snd (run ! k))"
proof (induction calls arbitrary: s run k)
  case Nil
  then show ?case by simp
next
  case (Cons call calls)
  from Cons.prems(1) obtain s1 evs run1 where
    1: "play E (fst call) (snd call) s = Inr (s1, evs)"
    and 2: "play_seq E calls s1 = Inr (run1, final)" and 3: "run = (s, evs) # run1"
    by (rule play_seq_Cons)
  show ?case
  proof (cases k)
    case 0
    with 1 3 show ?thesis by simp
  next
    case (Suc k')
    with Cons.prems(2) have "k' < length calls" by simp
    from Cons.IH[OF 2 this] Suc 3 show ?thesis by simp
  qed
qed

lemma play_seq_config:
  "play_seq E calls s = Inr (run, final) \<Longrightarrow> k < length calls \<Longrightarrow>
   sampling_step (fst (run ! k)) = sampling_step s + int k
   \<and> mcts_start_step (fst (run ! k)) = mcts_start_step s
   \<and> mcts_end_step (fst (run ! k)) = mcts_end_step s
   \<and> mcts_enable (fst (run ! k)) = mcts_enable s
   \<and> mcts_collect_data_freq (fst (run ! k)) = mcts_collect_data_freq s
   \<and> len_segment (fst (run ! k)) = len_segment s"
proof (induction calls arbitrary: s run k)
  case Nil
  then show ?case by simp
next
  case (Cons call calls)
  from Cons.prems(1) obtain s1 evs run1 where
    1: "play E (fst call) (snd call) s = Inr (s1, evs)"
    and 2: "play_seq E calls s1 = Inr (run1, final)" and 3: "run = (s, evs) # run1"
    by (rule play_seq_Cons)
  show ?case
  proof (cases k)
    case 0
    with 3 show ?thesis by simp
  next
    case (Suc k')
    with Cons.prems(2) have "k' < length calls" by simp
    from Cons.IH[OF 2 this] play_step[OF 1] Suc 3 show ?thesis by simp
  qed
qed

lemma play_seq_final:
  "play_seq E calls s = Inr (run, final) \<Longrightarrow>
   sampling_step final = sampling_step s + int (length calls)
   \<and> mcts_start_step final = mcts_start_step s
   \<and> mcts_end_step final = mcts_end_step s
   \<and> mcts_enable final = mcts_enable s"
proof (induction calls arbitrary: s run)
  case Nil
  then show ?case by simp
next
  case (Cons call calls)
  from Cons.prems(1) obtain s1 evs run1 where
    1: "play E (fst call) (snd call) s = Inr (s1, evs)"
    and 2: "play_seq E calls s1 = Inr (run1, final)" and 3: "run = (s, evs) # run1"
    by (rule play_seq_Cons)
  from Cons.IH[OF 2] play_step[OF 1] show ?case by simp
qed

lemma play_seq_first_mcts:
  "play_seq E calls s = Inr (run, final) \<Longrightarrow> k < length calls \<Longrightarrow>
   first_mcts (fst (run ! k))
     = (first_mcts s \<and> (\<forall>j<k. \<not> mcts_sample_enable (fst (run ! j))))"
proof (induction calls arbitrary: s run k)
  case Nil
  then show ?case by simp
next
  case (Cons call calls)
  from Cons.prems(1) obtain s1 evs run1 where
    1: "play E (fst call) (snd call) s = Inr (s1, evs)"
    and 2: "play_seq E calls s1 = Inr (run1, final)" and 3: "run = (s, evs) # run1"
    by (rule play_seq_Cons)
  show ?case
  proof (cases k)
    case 0
    with 3 show ?thesis by simp
  next
    case (Suc k')
    with Cons.prems(2) have k': "k' < length calls" by simp
    have "first_mcts (fst (run ! k)) = first_mcts (fst (run1 ! k'))"
      using Suc 3 by simp
    also have "\<dots> = (first_mcts s1 \<and> (\<forall>j<k'. \<not> mcts_sample_enable (fst (run1 ! j))))"
      by (rule Cons.IH[OF 2 k'])
    also have "first_mcts s1 = (first_mcts s \<and> \<not> mcts_sample_enable s)"
      using play_step[OF 1] by simp
    also have "((first_mcts s \<and> \<not> mcts_sample_enable s)
                 \<and> (\<forall>j<k'. \<not> mcts_sample_enable (fst (run1 ! j))))
             = (first_mcts s \<and> (\<forall>j<k. \<not> mcts_sample_enable (fst (run ! j))))"
      unfolding Suc 3 by (auto simp: less_Suc_eq_0_disj)
    finally show ?thesis .
  qed
qed

lemma play_seq_first_mcts_final:
  "play_seq E calls s = Inr (run, final) \<Longrightarrow>
   first_mcts final
     = (first_mcts s \<and> (\<forall>j<length calls. \<not> mcts_sample_enable (fst (run ! j))))"
proof (induction calls arbitrary: s run)
  case Nil
  then show ?case by simp
next
  case (Cons call calls)
  from Cons.prems(1) obtain s1 evs run1 where
    1: "play E (fst call) (snd call) s = Inr (s1, evs)"
    and 2: "play_seq E calls s1 = Inr (run1, final)" and 3: "run = (s, evs) # run1"
    by (rule play_seq_Cons)
  have "first_mcts final
      = (first_mcts s1 \<and> (\<forall>j<length calls. \<not> mcts_sample_enable (fst (run1 ! j))))"
    by (rule Cons.IH[OF 2])
  also have "first_mcts s1 = (first_mcts s \<and> \<not> mcts_sample_enable s)"
    using play_step[OF 1] by simp
  also have "((first_mcts s \<and> \<not> mcts_sample_enable s)
                 \<and> (\<forall>j<length calls. \<not> mcts_sample_enable (fst (run1 ! j))))
             = (first_mcts s
                \<and> (\<forall>j<length (call # calls). \<not> mcts_sample_enable (fst (run ! j))))"
    unfolding 3 by (auto simp: less_Suc_eq_0_disj)
  finally show ?case .
qed

lemma int_of_product_Inr:
  "(int_of_product E x n = Inr k) = (\<exists>p. float_mul E x n = Inr p \<and> py_int p = Inr k)"
  by (auto simp: int_of_product_def split: sum.splits)

lemma init_fields:
  assumes "init E files store cfg = Inr s"
  shows "first_mcts s" and "sampling_step s = 0" and "\<not> mcts_sampling s"
    and "mcts_enable s = arg_mcts_enable cfg"
    and "int_of_product E (mcts_start_step_frac cfg) (num_iterations cfg)
           = Inr (mcts_start_step s)"
    and "int_of_product E (mcts_end_step_frac cfg) (num_iterations cfg)
           = Inr (mcts_end_step s)"
    and "len_segment s = arg_len_segment cfg"
    and "mcts_collect_data_freq s = arg_mcts_collect_data_freq cfg"
  using assms by (auto simp: init_def split: sum.splits if_splits)

subsection \<open>The sample collaborator\<close>

lemma sample_float_mul_simps:
  "float_mul sample_externals = sample_float_mul"
  "MCTSEnv sample_externals = (\<lambda>args st. Inr (sample_game, st))"
  "prepare_mcts_player sample_externals
     = (\<lambda>src. Inr ((fst src)\<lparr>ob_rms := 2, ret_rms := 3\<rparr>, snd src))"
  by (simp_all add: sample_externals_def)

lemma sample_int_of_product:
  "int_of_product sample_externals (Finite r) n
     = Inr (if 0 \<le> r * of_int n then \<lfloor>r * of_int n\<rfloor> else \<lceil>r * of_int n\<rceil>)"
  by (simp add: int_of_product_def sample_float_mul_simps sample_float_mul_def py_int_def)

lemma sample_init_ok:
  "\<not> update_rms cfg \<Longrightarrow> mcts_start_step_frac cfg = Finite a \<Longrightarrow>
   mcts_end_step_frac cfg = Finite b \<Longrightarrow>
   \<exists>s. init sample_externals files store cfg = Inr s"
  by (simp add: init_def sample_int_of_product sample_float_mul_simps)

lemma sample_init: "init sample_externals Map.empty sample_store sample_config = Inr sample_env"
proof -
  have "\<exists>s. init sample_externals Map.empty sample_store sample_config = Inr s"
    by (rule sample_init_ok[where a = 0 and b = "3 / 4"]) (simp_all add: sample_config_def)
  then show ?thesis unfolding sample_env_def by auto
qed

lemma sample_env_fields:
  "sampling_step sample_env = 0" "mcts_start_step sample_env = 0"
  "mcts_end_step sample_env = 3" "mcts_enable sample_env" "first_mcts sample_env"
  "mcts_collect_data_freq sample_env = 2" "len_segment sample_env = 2"
  "\<not> mcts_sampling sample_env"
  using init_fields[OF sample_init]
  by (simp_all add: sample_config_def sample_int_of_product)

lemma upt_0_3: "[0..<3] = [0, 1, 2]"
  by code_simp

lemma sample_master:
  fixes s :: "(rat, nat, rat pyobj) parallel_env" and t :: bool
  defines "c \<equiv> sample_count (rms_count (rms_store s (ob_rms (master_game s))))"
  defines "g \<equiv> master_game (run_master sample_externals 3 t s)"
  shows "trajectory_dones g = [False, True, False]"
    and "trajectory_per_episode_lengths g = [2]"
    and "env_states g = [0, 1, 2]"
    and "trajectory_actions g = \<lparr>arr_dtype = DFloat32, arr_elems = [c, c + 1, c + 2]\<rparr>"
    and "trajectory_values g = \<lparr>arr_dtype = DFloat32, arr_elems = [c, c + 1, c + 2]\<rparr>"
    and "observation_dtype g = observation_dtype (master_game s)"
    and "ob_rms g = ob_rms (master_game s)"
    and "rms_count (rms_store (run_master sample_externals 3 t s) (ob_rms (master_game s)))
           = Val (c + 3)"
  unfolding g_def c_def
  by (simp_all add: run_master_def sample_externals_def sample_run_trajectory_def
      sample_rollout_def np_of_list_def Let_def upt_0_3)

lemma sample_play_ok:
  fixes s :: "(rat, nat, rat pyobj) parallel_env"
  assumes "mcts_collect_data_freq s \<noteq> 0" and "1 \<le> len_segment s"
    and "len_segment s < 2 ^ 53"
  shows "\<exists>s' evs. play sample_externals 3 t s = Inr (s', evs)"
  using assms by (intro play_ok) (simp_all add: sample_master)

lemma stats_handoff_store: "rms_store (fst (stats_handoff s)) = rms_store s"
  by (simp add: stats_handoff_def)

lemma sample_search_rollout_store:
  "search_rollout sample_externals sp s = Inr (s', ev) \<Longrightarrow> rms_store s' = rms_store s"
  by (auto simp: search_rollout_def aggregate_mcts_data_eq Let_def sample_externals_def
      sample_run_mcts_trajectory_def split: sum.splits)

lemma sample_run_inits_store:
  "run_inits sample_externals spans s = Inr (s', evs) \<Longrightarrow> rms_store s' = rms_store s"
proof (induction spans arbitrary: s s' evs)
  case Nil
  then show ?case by simp
next
  case (Cons sp spans)
  then obtain s1 ev evs1 where 1: "search_rollout sample_externals sp s = Inr (s1, ev)"
    and 2: "run_inits sample_externals spans s1 = Inr (s', evs1)"
    by (auto split: sum.splits prod.splits)
  from sample_search_rollout_store[OF 1] Cons.IH[OF 2] show ?case by simp
qed

lemma sample_run_segments_store:
  "run_segments sample_externals base lens s = Inr (s', evs) \<Longrightarrow> rms_store s' = rms_store s"
proof (induction lens arbitrary: base s s' evs)
  case Nil
  then show ?case by simp
next
  case (Cons L lens)
  then obtain n s1 evs1 evs2 where
    1: "run_inits sample_externals (sub_spans base L (len_segment s) n) s = Inr (s1, evs1)"
    and 2: "run_segments sample_externals (base + L) lens s1 = Inr (s', evs2)"
    by (auto split: sum.splits prod.splits)
  from sample_run_inits_store[OF 1] Cons.IH[OF 2] show ?case by simp
qed

lemma sample_mcts_sampling_step_store:
  assumes "mcts_sampling_step sample_externals m t s = Inr (s', evs)"
  shows "rms_store s' = rms_store s"
proof -
  let ?s1 = "(initialize_policy_episode_data (initialize_episode_data s))\<lparr>mcts_sampling := True\<rparr>"
  let ?src = "update_estimator sample_externals t (mcts_game ?s1, rms_store ?s1)"
  let ?s2 = "?s1\<lparr>mcts_game := fst ?src, rms_store := snd ?src\<rparr>"
  from assms obtain lens s3 where
    2: "run_segments sample_externals 0 lens ?s2 = Inr (s3, evs)"
    and 3: "s' = aggregate_policy_data sample_externals s3"
    by (auto simp: mcts_sampling_step_def Let_def split: sum.splits prod.splits)
  have "rms_store ?s2 = rms_store s"
    by (simp add: sample_externals_def initialize_policy_episode_data_def
        initialize_episode_data_def)
  with sample_run_segments_store[OF 2] 3 show ?thesis
    by (simp add: aggregate_policy_data_eq)
qed

lemma sample_play1:
  "play sample_externals 3 False sample_env
     = Inr (sample_env1, sample_events1)"
proof -
  have "\<exists>y. play sample_externals 3 False sample_env = Inr y"
    using sample_play_ok[of sample_env False] by (simp add: sample_env_fields)
  then show ?thesis unfolding sample_env1_def sample_events1_def by auto
qed

lemma sample_env1_fields:
  "sampling_step sample_env1 = 1" "mcts_start_step sample_env1 = 0"
  "mcts_end_step sample_env1 = 3" "mcts_enable sample_env1" "\<not> first_mcts sample_env1"
  "mcts_collect_data_freq sample_env1 = 2" "len_segment sample_env1 = 2"
  using play_step[OF sample_play1]
  by (simp_all add: sample_env_fields mcts_sample_enable_def)

lemma sample_env_eligible: "mcts_sample_enable sample_env"
  by (simp add: mcts_sample_enable_def sample_env_fields)

lemma sample_env1_eligible: "mcts_sample_enable sample_env1"
  by (simp add: mcts_sample_enable_def sample_env1_fields)

lemma sample_play2:
  "play sample_externals 3 False sample_env1
     = Inr (sample_env2, sample_events2)"
proof -
  have "\<exists>y. play sample_externals 3 False sample_env1 = Inr y"
    using sample_play_ok[of sample_env1 False] by (simp add: sample_env1_fields)
  then show ?thesis unfolding sample_env2_def sample_events2_def by auto
qed

lemma sample_play_seq:
  "play_seq sample_externals [(3, False), (3, False)] sample_env
     = Inr (fst sample_run, snd sample_run)"
proof -
  have "\<exists>y. play_seq sample_externals [(3, False), (3, False)] sample_env = Inr y"
    by (simp add: sample_play1 sample_play2)
  then show ?thesis unfolding sample_run_def by auto
qed

lemma sample_run_eq:
  "sample_run = ([(sample_env, sample_events1), (sample_env1, sample_events2)], sample_env2)"
  unfolding sample_run_def by (simp add: sample_play1 sample_play2)

text \<open>The first call collects search data; what it leaves behind.\<close>

lemma sample_init_games:
  "init sample_externals files store cfg = Inr s \<Longrightarrow> \<not> update_rms cfg \<Longrightarrow>
   master_game s = sample_game \<and> rms_store s = store
   \<and> mcts_game s = sample_game\<lparr>ob_rms := 2, ret_rms := 3\<rparr>"
  by (auto simp: init_def sample_float_mul_simps split: sum.splits)

lemma sample_env_start:
  "master_game sample_env = sample_game" "rms_store sample_env = sample_store"
  using sample_init_games[OF sample_init] by (simp_all add: sample_config_def)

lemma sample_env1_after:
  "master_game sample_env1 = master_game (run_master sample_externals 3 False sample_env)"
  "rms_store sample_env1 = rms_store (run_master sample_externals 3 False sample_env)"
  "policy_trajectory sample_env1
     = (\<lambda>p. new_policy_attr_val sample_externals
               (run_master sample_externals 3 False sample_env) p)"
proof -
  have gate: "(sampling_step sample_env - mcts_start_step sample_env)
                mod mcts_collect_data_freq sample_env = 0"
    by (simp add: sample_env_fields)
  from play_search[OF sample_env_eligible gate sample_play1] obtain s2 evs2 where
    1: "mcts_sampling_step sample_externals 3 False
          (fst (stats_handoff (run_master sample_externals 3 False sample_env))) = Inr (s2, evs2)"
    and 2: "sample_env1 = s2\<lparr>sampling_step := sampling_step s2 + 1\<rparr>"
    by blast
  note fr = mcts_sampling_step_frame[OF 1]
  show "master_game sample_env1 = master_game (run_master sample_externals 3 False sample_env)"
    unfolding 2 using fr by (simp add: stats_handoff_fields)
  show "rms_store sample_env1 = rms_store (run_master sample_externals 3 False sample_env)"
    unfolding 2 using sample_mcts_sampling_step_store[OF 1] by (simp add: stats_handoff_store)
  have "policy_trajectory sample_env1
      = (\<lambda>p. new_policy_attr_val sample_externals
                (fst (stats_handoff (run_master sample_externals 3 False sample_env))) p)"
    unfolding 2 using fr by simp
  then show "policy_trajectory sample_env1
     = (\<lambda>p. new_policy_attr_val sample_externals
               (run_master sample_externals 3 False sample_env) p)"
    by (simp add: new_policy_attr_val_def stats_handoff_fields)
qed

lemma sample_cast: "np_cast sample_externals = (\<lambda>d e. e)"
  by (simp add: sample_externals_def)

lemma sample_env1_policy_values:
  "policy_trajectory sample_env1 PValues
     = \<lparr>arr_dtype = DFloat32, arr_elems = [ENum 0, ENum 1, ENum 2]\<rparr>"
  by (simp add: sample_env1_after new_policy_attr_val_def sample_master sample_env_start
      sample_game_def sample_store_def np_asarray_def np_convert_def np_num_def sample_cast
      sample_count_def)

lemma sample_env2_after:
  "master_game sample_env2 = master_game (run_master sample_externals 3 False sample_env1)"
  "policy_trajectory sample_env2 = policy_trajectory sample_env1"
proof -
  have gate: "(sampling_step sample_env1 - mcts_start_step sample_env1)
                mod mcts_collect_data_freq sample_env1 \<noteq> 0"
    by (simp add: sample_env1_fields)
  have f: "mcts_collect_data_freq sample_env1 \<noteq> 0" by (simp add: sample_env1_fields)
  from play_gated[OF sample_env1_eligible f gate, of sample_externals 3 False] sample_play2
  have 2: "sample_env2 = (fst (stats_handoff (run_master sample_externals 3 False sample_env1)))
                           \<lparr>sampling_step := sampling_step sample_env1 + 1\<rparr>"
    by simp
  show "master_game sample_env2 = master_game (run_master sample_externals 3 False sample_env1)"
    by (subst 2) (simp add: stats_handoff_fields)
  show "policy_trajectory sample_env2 = policy_trajectory sample_env1"
    by (subst 2) (simp add: stats_handoff_fields run_master_fields)
qed

lemma sample_env2_primary_values:
  "trajectory_values (master_game sample_env2)
     = \<lparr>arr_dtype = DFloat32, arr_elems = [3, 4, 5]\<rparr>"
proof -
  have "sample_count (rms_count (rms_store sample_env1 (ob_rms (master_game sample_env1)))) = 3"
    using sample_master(8)[where s=sample_env and t=False]
    by (simp add: sample_env1_after sample_master(7) sample_env_start sample_store_def
        sample_count_def)
  then show ?thesis
    by (simp add: sample_env2_after sample_master)
qed

section \<open>The segmentation planner\<close>

text \<open>
  Claim C1. For a primary rollout buffer whose \<open>dones\<close> sequence is not empty and has
  \<open>max_steps\<close> entries, \<open>process_trajectory_lengths\<close> returns the recorded episode lengths
  when the last step is terminal; otherwise the episode lengths followed by
  \<open>max_steps - sum(per_episode_lengths)\<close> when an episode was completed; otherwise the
  single segment \<open>[max_steps]\<close>. In a rollout buffer the episode record is the one its
  \<open>dones\<close> sequence determines (one entry for each terminal step, the number of steps of
  the episode that ends there). For such a buffer the invariant holds, that is, the sum
  of the episode lengths is at most \<open>max_steps\<close>, with equality exactly when the last step
  is terminal, and the segments returned are positive and sum to \<open>max_steps\<close>.
\<close>

theorem process_trajectory_lengths_segments:
  assumes "trajectory_dones g \<noteq> []"
    and "int (length (trajectory_dones g)) = max_steps"
  shows "process_trajectory_lengths g max_steps =
           Inr (if last (trajectory_dones g) then trajectory_per_episode_lengths g
                else if trajectory_per_episode_lengths g \<noteq> [] then
                  trajectory_per_episode_lengths g
                    @ [max_steps - sum_list (trajectory_per_episode_lengths g)]
                else [max_steps])
       \<and> (trajectory_per_episode_lengths g = episode_lengths (trajectory_dones g) \<longrightarrow>
            sum_list (trajectory_per_episode_lengths g) \<le> max_steps
          \<and> (sum_list (trajectory_per_episode_lengths g) = max_steps)
               = last (trajectory_dones g)
          \<and> (\<exists>segs. process_trajectory_lengths g max_steps = Inr segs
                \<and> (\<forall>l \<in> set segs. 0 < l) \<and> sum_list segs = max_steps))"
proof -
  have pos: "0 < max_steps" using assms by (cases "trajectory_dones g") auto
  have eq: "process_trajectory_lengths g max_steps =
           Inr (if last (trajectory_dones g) then trajectory_per_episode_lengths g
                else if trajectory_per_episode_lengths g \<noteq> [] then
                  trajectory_per_episode_lengths g
                    @ [max_steps - sum_list (trajectory_per_episode_lengths g)]
                else [max_steps])"
    by (rule process_trajectory_lengths_eq[OF assms(1)])
  have wf: "sum_list (trajectory_per_episode_lengths g) \<le> max_steps
          \<and> (sum_list (trajectory_per_episode_lengths g) = max_steps)
               = last (trajectory_dones g)
          \<and> (\<exists>segs. process_trajectory_lengths g max_steps = Inr segs
                \<and> (\<forall>l \<in> set segs. 0 < l) \<and> sum_list segs = max_steps)"
    if rec: "trajectory_per_episode_lengths g = episode_lengths (trajectory_dones g)"
  proof -
    have le: "sum_list (trajectory_per_episode_lengths g) \<le> max_steps"
      unfolding rec using episode_lengths_sum(1)[of "trajectory_dones g"] assms(2) by simp
    have iff: "(sum_list (trajectory_per_episode_lengths g) = max_steps)
                 = last (trajectory_dones g)"
      unfolding rec using episode_lengths_sum(2)[OF assms(1)] assms(2) by simp
    have lpos: "\<forall>l \<in> set (trajectory_per_episode_lengths g). 0 < l"
      unfolding rec by (rule episode_lengths_pos)
    from le iff lpos pos show ?thesis
      by (auto simp: eq)
  qed
  from eq wf show ?thesis by blast
qed

theorem process_trajectory_lengths_segments_witness:
  "trajectory_dones
     (sample_game\<lparr>trajectory_dones := [False, True, False],
                  trajectory_per_episode_lengths := [2]\<rparr>) \<noteq> []
   \<and> int (length (trajectory_dones
        (sample_game\<lparr>trajectory_dones := [False, True, False],
                     trajectory_per_episode_lengths := [2]\<rparr>))) = 3
   \<and> trajectory_per_episode_lengths
        (sample_game\<lparr>trajectory_dones := [False, True, False],
                     trajectory_per_episode_lengths := [2]\<rparr>)
       = episode_lengths (trajectory_dones
           (sample_game\<lparr>trajectory_dones := [False, True, False],
                        trajectory_per_episode_lengths := [2]\<rparr>))
   \<and> process_trajectory_lengths
        (sample_game\<lparr>trajectory_dones := [False, True, False],
                     trajectory_per_episode_lengths := [2]\<rparr>) 3 = Inr [2, 1]
   \<and> (\<exists>segs. process_trajectory_lengths
                 (sample_game\<lparr>trajectory_dones := [False, True, False],
                              trajectory_per_episode_lengths := [2]\<rparr>) 3 = Inr segs
          \<and> (\<forall>l \<in> set segs. 0 < l) \<and> sum_list segs = 3)
   \<and> episode_lengths [False, False, True] = [3]
   \<and> process_trajectory_lengths
        (sample_game\<lparr>trajectory_dones := [False, False, True],
                     trajectory_per_episode_lengths := [3]\<rparr>) 3 = Inr [3]
   \<and> episode_lengths [False, False, False] = []
   \<and> process_trajectory_lengths
        (sample_game\<lparr>trajectory_dones := [False, False, False]\<rparr>) 3 = Inr [3]"
  using process_trajectory_lengths_segments
          [of "sample_game\<lparr>trajectory_dones := [False, True, False],
                           trajectory_per_episode_lengths := [2]\<rparr>" 3]
        process_trajectory_lengths_segments
          [of "sample_game\<lparr>trajectory_dones := [False, False, True],
                           trajectory_per_episode_lengths := [3]\<rparr>" 3]
        process_trajectory_lengths_segments
          [of "sample_game\<lparr>trajectory_dones := [False, False, False]\<rparr>" 3]
  by (simp add: sample_game_def episode_lengths_def)

section \<open>Sub-spans of a segment\<close>






section \<open>The aggregator\<close>

text \<open>
  Claim C5. A call of \<open>aggregate_mcts_data\<close> with \<open>mcts_sampling\<close> false sets each of the
  eleven \<open>trajectory_*\<close> attributes to \<^verbatim>\<open>np.asarray\<close> of the primary source's attribute of
  the same name, with the element type the dictionary gives for the name; what the
  attributes held before the call does not enter the result.
\<close>

theorem aggregate_mcts_data_policy_mode:
  assumes "\<not> mcts_sampling self"
  shows "trajectory (aggregate_mcts_data E self) a
           = np_asarray (np_cast E)
               (data_attr_types (observation_dtype (master_game self)) a)
               (getattr_game (master_game self) a)
       \<and> arr_dtype (trajectory (aggregate_mcts_data E self) a)
           = data_attr_types (observation_dtype (master_game self)) a
       \<and> aggregate_mcts_data E (self\<lparr>trajectory := stale\<rparr>) = aggregate_mcts_data E self"
  using assms
  by (simp add: aggregate_mcts_data_eq new_attr_val_def Let_def np_asarray_def)

theorem aggregate_mcts_data_policy_mode_witness:
  "\<not> mcts_sampling (run_master sample_externals 3 False sample_env)
   \<and> trajectory (aggregate_mcts_data sample_externals
                   (run_master sample_externals 3 False sample_env)) Values
       = \<lparr>arr_dtype = DFloat32, arr_elems = [ENum 0, ENum 1, ENum 2]\<rparr>
   \<and> trajectory (aggregate_mcts_data sample_externals
                   (run_master sample_externals 3 False sample_env)) Dones
       = \<lparr>arr_dtype = DBool, arr_elems = [EBool False, EBool True, EBool False]\<rparr>
   \<and> trajectory (aggregate_mcts_data sample_externals
                   (run_master sample_externals 3 False sample_env)) PerEpisodeLengths
       = \<lparr>arr_dtype = DFloat32, arr_elems = [EInt 2]\<rparr>"
proof -
  have c: "sample_count (rms_count (rms_store sample_env (ob_rms (master_game sample_env)))) = 0"
    by (simp add: sample_env_start sample_store_def sample_count_def)
  have m: "\<not> mcts_sampling (run_master sample_externals 3 False sample_env)"
    by (simp add: run_master_fields sample_env_fields)
  have o: "observation_dtype (master_game sample_env) = DFloat32"
    by (simp add: sample_env_start sample_game_def)
  show ?thesis
    using aggregate_mcts_data_policy_mode[OF m, of sample_externals Values]
      aggregate_mcts_data_policy_mode[OF m, of sample_externals Dones]
      aggregate_mcts_data_policy_mode[OF m, of sample_externals PerEpisodeLengths]
    by (simp add: m sample_master c o np_asarray_def np_convert_def np_num_def np_of_list_def
        sample_cast)
qed

section \<open>Construction\<close>

lemma game_args_len_segment: "game_args (cfg\<lparr>arg_len_segment := l\<rparr>) = game_args cfg"
  by (simp add: game_args_def)

text \<open>
  Claim C9, as amended. \<open>__init__\<close> does not validate the configuration. \<open>len_segment\<close> is
  stored as it is given and has no influence on whether the constructor raises. The two
  fractions are multiplied by \<open>num_iterations\<close> and truncated, each on its own, and never
  compared: whenever both products convert to integers, the two rollout sources are
  constructed and prepared, and the checkpoint (if \<open>update_rms\<close>) is loaded, the
  constructor completes and the new object holds \<open>len_segment\<close> and the two bounds,
  whatever their order and sign.
\<close>

theorem init_does_not_validate:
  "isl (init E files store (cfg\<lparr>arg_len_segment := l\<rparr>)) = isl (init E files store cfg)
   \<and> (int_of_product E (mcts_start_step_frac cfg) (num_iterations cfg) = Inr a
        \<and> int_of_product E (mcts_end_step_frac cfg) (num_iterations cfg) = Inr b
        \<and> MCTSEnv E (game_args cfg) store = Inr master
        \<and> (if update_rms cfg
            then load_norm files (arg_checkpoint_dir cfg) (fst master) (snd master)
            else Inr (snd master)) = Inr store1
        \<and> MCTSEnv E (game_args cfg) store1 = Inr game
        \<and> prepare_mcts_player E game = Inr mcts
      \<longrightarrow> (\<exists>self. init E files store cfg = Inr self
             \<and> len_segment self = arg_len_segment cfg
             \<and> mcts_start_step self = a \<and> mcts_end_step self = b))"
proof -
  have 1: "isl (init E files store (cfg\<lparr>arg_len_segment := l\<rparr>))
             = isl (init E files store cfg)"
    by (simp add: init_def game_args_len_segment split: sum.splits)
  have 2: "\<exists>self. init E files store cfg = Inr self
             \<and> len_segment self = arg_len_segment cfg
             \<and> mcts_start_step self = a \<and> mcts_end_step self = b"
    if "int_of_product E (mcts_start_step_frac cfg) (num_iterations cfg) = Inr a"
      and "int_of_product E (mcts_end_step_frac cfg) (num_iterations cfg) = Inr b"
      and "MCTSEnv E (game_args cfg) store = Inr master"
      and "(if update_rms cfg
            then load_norm files (arg_checkpoint_dir cfg) (fst master) (snd master)
            else Inr (snd master)) = Inr store1"
      and "MCTSEnv E (game_args cfg) store1 = Inr game"
      and "prepare_mcts_player E game = Inr mcts"
    using that by (simp add: init_def)
  from 1 2 show ?thesis by blast
qed

theorem init_does_not_validate_witness:
  "int_of_product sample_externals (Finite (3 / 4)) 4 = Inr 3
   \<and> int_of_product sample_externals (Finite (1 / 4)) 4 = Inr 1
   \<and> load_norm sample_files (Some ''ckpt'') sample_game sample_store
       = Inr (sample_store
           (0 := \<lparr>rms_mean = Val 5, rms_var = Val 2, rms_count = Val 10\<rparr>,
            1 := \<lparr>rms_mean = Val 7, rms_var = Val 3, rms_count = Val 10\<rparr>))
   \<and> (\<exists>self. init sample_externals sample_files sample_store
                 (sample_config\<lparr>arg_len_segment := - 1,
                    mcts_start_step_frac := Finite (3 / 4),
                    mcts_end_step_frac := Finite (1 / 4),
                    arg_checkpoint_dir := Some ''ckpt'', update_rms := True\<rparr>) = Inr self
          \<and> len_segment self = - 1 \<and> mcts_start_step self = 3 \<and> mcts_end_step self = 1)"
proof -
  let ?cfg = "sample_config\<lparr>arg_len_segment := - 1,
                    mcts_start_step_frac := Finite (3 / 4),
                    mcts_end_step_frac := Finite (1 / 4),
                    arg_checkpoint_dir := Some ''ckpt'', update_rms := True\<rparr>"
  let ?st = "sample_store
           (0 := \<lparr>rms_mean = Val 5, rms_var = Val 2, rms_count = Val 10\<rparr>,
            1 := \<lparr>rms_mean = Val 7, rms_var = Val 3, rms_count = Val 10\<rparr>)"
  have p: "int_of_product sample_externals (Finite (3 / 4)) 4 = Inr 3"
    "int_of_product sample_externals (Finite (1 / 4)) 4 = Inr 1"
    by (simp_all add: sample_int_of_product)
  have ld: "load_norm sample_files (Some ''ckpt'') sample_game sample_store = Inr ?st"
    by (simp add: load_norm_def os_path_join_def sample_files_def pickle_load_def
        norm_entry_def py_getitem_def sample_norm_def sample_game_def sample_store_def
        fun_eq_iff)
  from init_does_not_validate
         [where E = sample_externals and files = sample_files and store = sample_store
            and cfg = ?cfg and l = 0 and a = 3 and b = 1
            and master = "(sample_game, sample_store)" and ?store1.0 = ?st
            and game = "(sample_game, ?st)"
            and mcts = "(sample_game\<lparr>ob_rms := 2, ret_rms := 3\<rparr>, ?st)"]
  have "\<exists>self. init sample_externals sample_files sample_store ?cfg = Inr self
          \<and> len_segment self = - 1 \<and> mcts_start_step self = 3 \<and> mcts_end_step self = 1"
    by (simp add: p ld sample_config_def sample_float_mul_simps)
  with p ld show ?thesis by simp
qed

text \<open>
  A configuration with \<open>mcts_start_step_frac \<ge> mcts_end_step_frac\<close> and a non-positive
  \<open>len_segment\<close> is accepted: the constructor returns an object with \<open>len_segment = 0\<close> and
  a search window that starts at step 3 and ends at step 1.
\<close>

theorem init_accepts_invalid_configuration:
  "arg_len_segment
        (sample_config\<lparr>arg_len_segment := 0, mcts_start_step_frac := Finite (3 / 4),
                       mcts_end_step_frac := Finite (1 / 4)\<rparr>) \<le> 0
   \<and> mcts_start_step_frac
        (sample_config\<lparr>arg_len_segment := 0, mcts_start_step_frac := Finite (3 / 4),
                       mcts_end_step_frac := Finite (1 / 4)\<rparr>) = Finite (3 / 4)
   \<and> mcts_end_step_frac
        (sample_config\<lparr>arg_len_segment := 0, mcts_start_step_frac := Finite (3 / 4),
                       mcts_end_step_frac := Finite (1 / 4)\<rparr>) = Finite (1 / 4)
   \<and> (1 / 4 :: rat) \<le> 3 / 4
   \<and> \<not> isl (init sample_externals Map.empty sample_store
              (sample_config\<lparr>arg_len_segment := 0, mcts_start_step_frac := Finite (3 / 4),
                             mcts_end_step_frac := Finite (1 / 4)\<rparr>))
   \<and> len_segment (projr (init sample_externals Map.empty sample_store
              (sample_config\<lparr>arg_len_segment := 0, mcts_start_step_frac := Finite (3 / 4),
                             mcts_end_step_frac := Finite (1 / 4)\<rparr>))) = 0
   \<and> mcts_start_step (projr (init sample_externals Map.empty sample_store
              (sample_config\<lparr>arg_len_segment := 0, mcts_start_step_frac := Finite (3 / 4),
                             mcts_end_step_frac := Finite (1 / 4)\<rparr>))) = 3
   \<and> mcts_end_step (projr (init sample_externals Map.empty sample_store
              (sample_config\<lparr>arg_len_segment := 0, mcts_start_step_frac := Finite (3 / 4),
                             mcts_end_step_frac := Finite (1 / 4)\<rparr>))) = 1"
  by (simp add: init_def sample_config_def sample_int_of_product sample_float_mul_simps)

section \<open>A step inside the window that collects no search data\<close>

text \<open>
  Claim C8. On a call of \<open>play\<close> where \<open>mcts_sample_enable()\<close> holds and
  \<open>(sampling_step - mcts_start_step) % mcts_collect_data_freq\<close> is not zero, the call
  completes and the eleven \<open>trajectory_*\<close> attributes and \<open>mcts_sampling\<close> are what they were
  before the call. (A frequency of zero makes the modulo raise; the call then does not
  complete.)
\<close>

theorem play_gated_keeps_current_step_dataset:
  assumes "mcts_sample_enable self"
    and "mcts_collect_data_freq self \<noteq> 0"
    and "(sampling_step self - mcts_start_step self) mod mcts_collect_data_freq self \<noteq> 0"
  shows "\<exists>self' evs. play E max_steps test_mode self = Inr (self', evs)
           \<and> trajectory self' = trajectory self
           \<and> mcts_sampling self' = mcts_sampling self"
  using play_gated[OF assms, of E max_steps test_mode]
  by (simp add: stats_handoff_fields run_master_fields)

theorem play_gated_keeps_current_step_dataset_witness:
  "mcts_sample_enable sample_env1
   \<and> mcts_collect_data_freq sample_env1 \<noteq> 0
   \<and> (sampling_step sample_env1 - mcts_start_step sample_env1)
        mod mcts_collect_data_freq sample_env1 \<noteq> 0
   \<and> (\<exists>self' evs. play sample_externals 3 False sample_env1 = Inr (self', evs)
         \<and> trajectory self' = trajectory sample_env1
         \<and> mcts_sampling self' = mcts_sampling sample_env1)"
proof -
  have g: "(sampling_step sample_env1 - mcts_start_step sample_env1)
             mod mcts_collect_data_freq sample_env1 \<noteq> 0"
    and f: "mcts_collect_data_freq sample_env1 \<noteq> 0"
    by (simp_all add: sample_env1_fields)
  from play_gated_keeps_current_step_dataset[OF sample_env1_eligible f g]
  show ?thesis using sample_env1_eligible f g by blast
qed

section \<open>The policy dataset\<close>

text \<open>
  Claim C2, as amended. After a completed call of \<open>play\<close> on a step outside the search
  window, or on a step of the window with
  \<open>(sampling_step - mcts_start_step) % mcts_collect_data_freq = 0\<close>, each of the six
  \<open>policy_trajectory_*\<close> attributes is \<^verbatim>\<open>np.asarray\<close> of the attribute of the primary
  rollout of this call that its name stands for, with the observation element type for the
  states and 32-bit floats for the rest; nothing of the search rollouts enters. On a step
  of the window where the remainder is not zero, \<open>aggregate_policy_data\<close> is not called and
  the six attributes keep what they held before the call.
\<close>

theorem play_policy_dataset:
  assumes "play E max_steps test_mode self = Inr (self', evs)"
  shows "master_game self' = master_game (run_master E max_steps test_mode self)
       \<and> (if mcts_sample_enable self
              \<and> (sampling_step self - mcts_start_step self) mod mcts_collect_data_freq self \<noteq> 0
           then policy_trajectory self' = policy_trajectory self
           else policy_trajectory self'
                  = (\<lambda>p. np_asarray (np_cast E)
                            (policy_attr_types
                               (observation_dtype
                                  (master_game (run_master E max_steps test_mode self))) p)
                            (getattr_game (master_game (run_master E max_steps test_mode self))
                               (master_data_attr p))))"
proof (cases "mcts_sample_enable self")
  case False
  with assms show ?thesis
    by (auto simp: play_not_eligible policy_sampling_fields new_policy_attr_val_def)
next
  case True
  note elig = this
  have f0: "mcts_collect_data_freq self \<noteq> 0"
    using assms elig play_raises_on_zero_freq[of self E max_steps test_mode] by auto
  show ?thesis
  proof (cases "(sampling_step self - mcts_start_step self) mod mcts_collect_data_freq self = 0")
    case False
    from play_gated[OF elig f0 False, of E max_steps test_mode] assms elig False
    show ?thesis
      by (auto simp: stats_handoff_fields run_master_fields)
  next
    case True
    from play_search[OF elig True assms] obtain s2 evs2 where
      1: "mcts_sampling_step E max_steps test_mode
            (fst (stats_handoff (run_master E max_steps test_mode self))) = Inr (s2, evs2)"
      and 2: "self' = s2\<lparr>sampling_step := sampling_step s2 + 1\<rparr>"
      by blast
    from mcts_sampling_step_frame[OF 1] True show ?thesis
      unfolding 2 by (simp add: stats_handoff_fields new_policy_attr_val_def)
  qed
qed

theorem play_policy_dataset_witness:
  "play sample_externals 3 False sample_env = Inr (sample_env1, sample_events1)
   \<and> mcts_sample_enable sample_env
   \<and> (sampling_step sample_env - mcts_start_step sample_env)
        mod mcts_collect_data_freq sample_env = 0
   \<and> policy_trajectory sample_env1 PValues
       = np_asarray (np_cast sample_externals) DFloat32
           (getattr_game (master_game (run_master sample_externals 3 False sample_env)) Values)
   \<and> policy_trajectory sample_env1 PValues
       = \<lparr>arr_dtype = DFloat32, arr_elems = [ENum 0, ENum 1, ENum 2]\<rparr>"
proof -
  have v: "np_asarray (np_cast sample_externals) DFloat32
             (getattr_game (master_game (run_master sample_externals 3 False sample_env)) Values)
           = \<lparr>arr_dtype = DFloat32, arr_elems = [ENum 0, ENum 1, ENum 2]\<rparr>"
    by (simp add: sample_master sample_env_start sample_game_def sample_store_def
        np_asarray_def np_convert_def np_num_def sample_count_def)
  have o: "observation_dtype (master_game sample_env) = DFloat32"
    by (simp add: sample_env_start sample_game_def)
  from play_policy_dataset[OF sample_play1]
  have "policy_trajectory sample_env1 PValues
       = np_asarray (np_cast sample_externals) DFloat32
           (getattr_game (master_game (run_master sample_externals 3 False sample_env)) Values)"
    by (simp add: sample_env_fields sample_env_eligible sample_master o)
  with v show ?thesis
    using sample_play1 sample_env_eligible by (simp add: sample_env_fields)
qed

text \<open>
  The claim as stated fails on a step of the window that collects no search data. With
  the window starting at step 0 and a collection frequency of 2, the second call of
  \<open>play\<close> completes, and the policy dataset still holds the values 0, 1, 2 of the first
  call's primary rollout, while the primary rollout of the second call has the values
  3, 4, 5.
\<close>

theorem stale_policy_dataset_counterexample:
  "play sample_externals 3 False sample_env = Inr (sample_env1, sample_events1)
   \<and> play sample_externals 3 False sample_env1 = Inr (sample_env2, sample_events2)
   \<and> mcts_sample_enable sample_env1
   \<and> (sampling_step sample_env1 - mcts_start_step sample_env1)
        mod mcts_collect_data_freq sample_env1 = 1
   \<and> policy_trajectory sample_env2 PValues
       = \<lparr>arr_dtype = DFloat32, arr_elems = [ENum 0, ENum 1, ENum 2]\<rparr>
   \<and> np_asarray (np_cast sample_externals)
        (policy_attr_types (observation_dtype (master_game sample_env2)) PValues)
        (getattr_game (master_game sample_env2) (master_data_attr PValues))
       = \<lparr>arr_dtype = DFloat32, arr_elems = [ENum 3, ENum 4, ENum 5]\<rparr>"
  by (simp add: sample_play1 sample_play2 sample_env1_eligible sample_env1_fields
      sample_env2_after(2) sample_env1_policy_values sample_env2_primary_values
      np_asarray_def np_convert_def np_num_def sample_cast)

section \<open>The search window\<close>

text \<open>
  Claim C6, as amended. \<open>mcts_sample_enable()\<close> is true exactly when \<open>mcts_enable\<close> is set
  and \<open>mcts_start_step \<le> sampling_step < mcts_end_step\<close>. The two bounds are computed once,
  by the constructor, as \<^verbatim>\<open>int(frac * num_iterations)\<close>: the product with its fractional
  part dropped, not rounded to the nearest integer (\<open>py_int\<close> of the product \<open>p\<close> gives the
  bound). No call of \<open>play\<close> changes them or \<open>mcts_enable\<close>, and the \<open>k\<close>-th call (counting
  from 0) of a sequence of calls on a new object runs at sampling step \<open>k\<close>.
\<close>

theorem search_window:
  assumes "init E files store cfg = Inr self0"
    and "play_seq E calls self0 = Inr (run, final)"
    and "k < length calls"
  shows "mcts_sample_enable (fst (run ! k))
           = (mcts_enable (fst (run ! k))
              \<and> mcts_start_step (fst (run ! k)) \<le> sampling_step (fst (run ! k))
              \<and> sampling_step (fst (run ! k)) < mcts_end_step (fst (run ! k)))
       \<and> mcts_enable (fst (run ! k)) = arg_mcts_enable cfg
       \<and> (\<exists>p. float_mul E (mcts_start_step_frac cfg) (num_iterations cfg) = Inr p
              \<and> py_int p = Inr (mcts_start_step (fst (run ! k))))
       \<and> (\<exists>p. float_mul E (mcts_end_step_frac cfg) (num_iterations cfg) = Inr p
              \<and> py_int p = Inr (mcts_end_step (fst (run ! k))))
       \<and> sampling_step (fst (run ! k)) = int k
       \<and> mcts_start_step final = mcts_start_step self0
       \<and> mcts_end_step final = mcts_end_step self0
       \<and> mcts_enable final = mcts_enable self0"
  using play_seq_config[OF assms(2,3)] play_seq_final[OF assms(2)] init_fields[OF assms(1)]
  by (simp add: mcts_sample_enable_def conj_commute int_of_product_Inr)

theorem search_window_witness:
  "init sample_externals Map.empty sample_store sample_config = Inr sample_env
   \<and> play_seq sample_externals [(3, False), (3, False)] sample_env
       = Inr (fst sample_run, snd sample_run)
   \<and> mcts_sample_enable (fst (fst sample_run ! 1))
   \<and> sampling_step (fst (fst sample_run ! 1)) = 1
   \<and> mcts_start_step (fst (fst sample_run ! 1)) = 0
   \<and> mcts_end_step (fst (fst sample_run ! 1)) = 3"
proof -
  have k: "1 < length [(3::int, False), (3, False)]" by simp
  have b: "float_mul sample_externals (mcts_start_step_frac sample_config)
             (num_iterations sample_config) = Inr (Finite 0)"
    "float_mul sample_externals (mcts_end_step_frac sample_config)
             (num_iterations sample_config) = Inr (Finite 3)"
    by (simp_all add: sample_float_mul_simps sample_float_mul_def sample_config_def)
  from search_window[OF sample_init sample_play_seq k] b
  have "mcts_sample_enable (fst (fst sample_run ! 1))
      \<and> sampling_step (fst (fst sample_run ! 1)) = 1
      \<and> mcts_start_step (fst (fst sample_run ! 1)) = 0
      \<and> mcts_end_step (fst (fst sample_run ! 1)) = 3"
    by (auto simp: sample_config_def py_int_def)
  with sample_init sample_play_seq show ?thesis by simp
qed

text \<open>
  The claim as stated names \<open>round\<close>. With \<open>mcts_start_step_frac = 0.75\<close>,
  \<open>mcts_end_step_frac = 0.875\<close> and \<open>num_iterations = 10\<close> the products are 7.5 and 8.75
  (exact in binary floating point): the constructor stores 7 and 8, rounding gives 8
  and 9.
\<close>

theorem window_bounds_truncated_counterexample:
  "mcts_start_step
     (projr (init sample_externals Map.empty sample_store
        (sample_config\<lparr>mcts_start_step_frac := Finite (3 / 4),
                       mcts_end_step_frac := Finite (7 / 8),
                       num_iterations := 10\<rparr>))) = 7
   \<and> py_round (3 / 4 * 10) = 8
   \<and> mcts_end_step
     (projr (init sample_externals Map.empty sample_store
        (sample_config\<lparr>mcts_start_step_frac := Finite (3 / 4),
                       mcts_end_step_frac := Finite (7 / 8),
                       num_iterations := 10\<rparr>))) = 8
   \<and> py_round (7 / 8 * 10) = 9"
proof -
  have f: "\<lfloor>15 / 2 :: rat\<rfloor> = 7" "\<lfloor>35 / 4 :: rat\<rfloor> = 8"
    by (simp_all add: floor_eq_iff)
  show ?thesis
    by (simp add: init_def sample_config_def sample_int_of_product sample_float_mul_simps
        py_round_def Let_def f)
qed

section \<open>The hand-off of the normalization statistics\<close>

lemma play_eligible:
  assumes "mcts_sample_enable s"
  shows "play E m t s =
     (case rest_of_call E m t (fst (stats_handoff (run_master E m t s))) of
        Inl e \<Rightarrow> Inl e
      | Inr (s', evs) \<Rightarrow> Inr (s', snd (stats_handoff (run_master E m t s)) @ evs))"
  using assms
  by (auto simp: play_def rest_of_call_def Let_def mcts_sample_enable_run_master split_beta
      split: sum.splits)

lemma stats_handoff_eq:
  "stats_handoff a =
     (if first_mcts a then
        (a\<lparr>mcts_game := (mcts_game a)
               \<lparr>ob_rms := ob_rms (master_game a), ret_rms := ret_rms (master_game a)\<rparr>,
           first_mcts := False\<rparr>, [Stats_handoff])
      else (a, []))"
  by (simp add: stats_handoff_def)

lemma play_cases:
  "play E m t s =
     (let a = run_master E m t s
      in if \<not> mcts_sample_enable s then
           Inr ((policy_sampling E a)\<lparr>sampling_step := sampling_step a + 1\<rparr>, [])
         else if first_mcts s then
           (case rest_of_call E m t
                   (a\<lparr>mcts_game := (mcts_game a)
                          \<lparr>ob_rms := ob_rms (master_game a),
                           ret_rms := ret_rms (master_game a)\<rparr>,
                      first_mcts := False\<rparr>) of
              Inl e \<Rightarrow> Inl e
            | Inr (s', evs) \<Rightarrow> Inr (s', Stats_handoff # evs))
         else rest_of_call E m t a)"
proof (cases "mcts_sample_enable s")
  case False
  then show ?thesis by (simp add: play_not_eligible Let_def run_master_fields)
next
  case True
  show ?thesis
  proof (cases "first_mcts s")
    case f: True
    then have "first_mcts (run_master E m t s)" by (simp add: run_master_fields)
    then show ?thesis
      using True f by (auto simp: play_eligible stats_handoff_eq Let_def split: sum.splits)
  next
    case f: False
    then have "\<not> first_mcts (run_master E m t s)" by (simp add: run_master_fields)
    then show ?thesis
      using True f by (auto simp: play_eligible stats_handoff_eq Let_def split: sum.splits)
  qed
qed

text \<open>The sample collaborator leaves the references of the search source as they are.\<close>

lemma sample_search_rollout_refs:
  "search_rollout sample_externals sp s = Inr (s', ev) \<Longrightarrow>
   ob_rms (mcts_game s') = ob_rms (mcts_game s) \<and> ret_rms (mcts_game s') = ret_rms (mcts_game s)"
  by (auto simp: search_rollout_def aggregate_mcts_data_eq Let_def sample_externals_def
      sample_run_mcts_trajectory_def sample_rollout_def split: sum.splits)

lemma sample_run_inits_refs:
  "run_inits sample_externals spans s = Inr (s', evs) \<Longrightarrow>
   ob_rms (mcts_game s') = ob_rms (mcts_game s) \<and> ret_rms (mcts_game s') = ret_rms (mcts_game s)"
proof (induction spans arbitrary: s s' evs)
  case Nil
  then show ?case by simp
next
  case (Cons sp spans)
  then obtain s1 ev evs1 where 1: "search_rollout sample_externals sp s = Inr (s1, ev)"
    and 2: "run_inits sample_externals spans s1 = Inr (s', evs1)"
    by (auto split: sum.splits prod.splits)
  from sample_search_rollout_refs[OF 1] Cons.IH[OF 2] show ?case by simp
qed

lemma sample_run_segments_refs:
  "run_segments sample_externals base lens s = Inr (s', evs) \<Longrightarrow>
   ob_rms (mcts_game s') = ob_rms (mcts_game s) \<and> ret_rms (mcts_game s') = ret_rms (mcts_game s)"
proof (induction lens arbitrary: base s s' evs)
  case Nil
  then show ?case by simp
next
  case (Cons L lens)
  then obtain n s1 evs1 evs2 where
    1: "run_inits sample_externals (sub_spans base L (len_segment s) n) s = Inr (s1, evs1)"
    and 2: "run_segments sample_externals (base + L) lens s1 = Inr (s', evs2)"
    by (auto split: sum.splits prod.splits)
  from sample_run_inits_refs[OF 1] Cons.IH[OF 2] show ?case by simp
qed

lemma sample_rest_of_call_refs:
  assumes "rest_of_call sample_externals m t s = Inr (s', evs)"
  shows "ob_rms (mcts_game s') = ob_rms (mcts_game s)
       \<and> ret_rms (mcts_game s') = ret_rms (mcts_game s)
       \<and> master_game s' = master_game s"
proof (cases "(sampling_step s - mcts_start_step s) mod mcts_collect_data_freq s = 0")
  case False
  with assms show ?thesis
    by (auto simp: rest_of_call_def py_mod_def split: if_splits)
next
  case True
  let ?s1 = "(initialize_policy_episode_data (initialize_episode_data s))\<lparr>mcts_sampling := True\<rparr>"
  let ?src = "update_estimator sample_externals t (mcts_game ?s1, rms_store ?s1)"
  let ?s2 = "?s1\<lparr>mcts_game := fst ?src, rms_store := snd ?src\<rparr>"
  from assms True obtain s3 where 1: "mcts_sampling_step sample_externals m t s = Inr (s3, evs)"
    and 2: "s' = s3\<lparr>sampling_step := sampling_step s3 + 1\<rparr>"
    by (auto simp: rest_of_call_def py_mod_def split: if_splits sum.splits)
  from 1 obtain lens s4 where
    3: "run_segments sample_externals 0 lens ?s2 = Inr (s4, evs)"
    and 4: "s3 = aggregate_policy_data sample_externals s4"
    by (auto simp: mcts_sampling_step_def Let_def split: sum.splits prod.splits)
  have "ob_rms (mcts_game ?s2) = ob_rms (mcts_game s)"
    "ret_rms (mcts_game ?s2) = ret_rms (mcts_game s)"
    by (simp_all add: sample_externals_def initialize_policy_episode_data_def
        initialize_episode_data_def)
  with sample_run_segments_refs[OF 3] mcts_sampling_step_frame[OF 1] 2 4 show ?thesis
    by (simp add: aggregate_policy_data_eq)
qed

text \<open>
  Claim C7. In a sequence of completed calls of \<open>play\<close> on a newly constructed object (a
  caller does not go on with an object whose call raised), the statistics of the search
  source are rebound to the primary source's on the first call for which
  \<open>mcts_sample_enable()\<close> holds, and on no other call; \<open>first_mcts\<close> is true after
  construction and before every call up to and including that one, and false from then
  on. In the statement, \<open>run ! k\<close> is the object before the \<open>k\<close>-th call together with the
  events of that call, and \<open>a\<close> is the object when the primary rollout of that call has
  been collected. The last conjunct says what the \<open>k\<close>-th call is: outside the search window
  it is the policy-sampling branch; on the first call inside the window it is the rest of
  \<open>play\<close> (the frequency gate, the search step, the increment) run on the object in which
  \<open>ob_rms\<close> and \<open>ret_rms\<close> of the search source are those of the primary source and
  \<open>first_mcts\<close> is false; on every later call inside the window it is the rest of \<open>play\<close>
  run on \<open>a\<close> as it is, the search source not being rebound.
\<close>

theorem handoff_once:
  assumes "init E files store cfg = Inr self0"
    and "play_seq E calls self0 = Inr (run, final)"
    and "k < length calls"
  shows "first_mcts self0
       \<and> first_mcts (fst (run ! k)) = (\<forall>j<k. \<not> mcts_sample_enable (fst (run ! j)))
       \<and> first_mcts final = (\<forall>j<length calls. \<not> mcts_sample_enable (fst (run ! j)))
       \<and> (Stats_handoff \<in> set (snd (run ! k)))
           = (mcts_sample_enable (fst (run ! k))
              \<and> (\<forall>j<k. \<not> mcts_sample_enable (fst (run ! j))))
       \<and> count_list (snd (run ! k)) Stats_handoff
           = (if mcts_sample_enable (fst (run ! k))
                 \<and> (\<forall>j<k. \<not> mcts_sample_enable (fst (run ! j))) then 1 else 0)
       \<and> play E (fst (calls ! k)) (snd (calls ! k)) (fst (run ! k))
           = (let a = run_master E (fst (calls ! k)) (snd (calls ! k)) (fst (run ! k))
              in if \<not> mcts_sample_enable (fst (run ! k)) then
                   Inr ((policy_sampling E a)\<lparr>sampling_step := sampling_step a + 1\<rparr>, [])
                 else if \<forall>j<k. \<not> mcts_sample_enable (fst (run ! j)) then
                   (case rest_of_call E (fst (calls ! k)) (snd (calls ! k))
                           (a\<lparr>mcts_game := (mcts_game a)
                                  \<lparr>ob_rms := ob_rms (master_game a),
                                   ret_rms := ret_rms (master_game a)\<rparr>,
                              first_mcts := False\<rparr>) of
                      Inl e \<Rightarrow> Inl e
                    | Inr (self', evs) \<Rightarrow> Inr (self', Stats_handoff # evs))
                 else rest_of_call E (fst (calls ! k)) (snd (calls ! k)) a)"
proof -
  have f0: "first_mcts self0"
    using assms(1) by (rule init_fields)
  from play_seq_nth[OF assms(2,3)] obtain s' where
    p: "play E (fst (calls ! k)) (snd (calls ! k)) (fst (run ! k)) = Inr (s', snd (run ! k))"
    by blast
  have fm: "first_mcts (fst (run ! k)) = (\<forall>j<k. \<not> mcts_sample_enable (fst (run ! j)))"
    using play_seq_first_mcts[OF assms(2,3)] f0 by simp
  have ff: "first_mcts final = (\<forall>j<length calls. \<not> mcts_sample_enable (fst (run ! j)))"
    using play_seq_first_mcts_final[OF assms(2)] f0 by simp
  from play_step[OF p] have
    h: "(Stats_handoff \<in> set (snd (run ! k)))
          = (mcts_sample_enable (fst (run ! k)) \<and> first_mcts (fst (run ! k)))"
    and c: "count_list (snd (run ! k)) Stats_handoff
          = (if mcts_sample_enable (fst (run ! k)) \<and> first_mcts (fst (run ! k))
             then 1 else 0)"
    by simp_all
  note pc = play_cases[of E "fst (calls ! k)" "snd (calls ! k)" "fst (run ! k)",
      unfolded fm]
  show ?thesis
    unfolding h c fm using f0 ff fm pc by simp
qed

theorem handoff_once_witness:
  "init sample_externals Map.empty sample_store sample_config = Inr sample_env
   \<and> play_seq sample_externals [(3, False), (3, False)] sample_env
       = Inr (fst sample_run, snd sample_run)
   \<and> mcts_sample_enable (fst (fst sample_run ! 0))
   \<and> mcts_sample_enable (fst (fst sample_run ! 1))
   \<and> count_list (snd (fst sample_run ! 0)) Stats_handoff = 1
   \<and> Stats_handoff \<notin> set (snd (fst sample_run ! 1))
   \<and> first_mcts (fst (fst sample_run ! 0))
   \<and> \<not> first_mcts (fst (fst sample_run ! 1))
   \<and> \<not> first_mcts (snd sample_run)
   \<and> ob_rms (mcts_game sample_env) = 2 \<and> ret_rms (mcts_game sample_env) = 3
   \<and> ob_rms (master_game sample_env1) = 0 \<and> ret_rms (master_game sample_env1) = 1
   \<and> ob_rms (mcts_game sample_env1) = 0 \<and> ret_rms (mcts_game sample_env1) = 1"
proof -
  let ?a = "run_master sample_externals 3 False sample_env"
  let ?b = "?a\<lparr>mcts_game := (mcts_game ?a)
                  \<lparr>ob_rms := ob_rms (master_game ?a), ret_rms := ret_rms (master_game ?a)\<rparr>,
              first_mcts := False\<rparr>"
  have k0: "0 < length [(3::int, False), (3, False)]"
    and k1: "1 < length [(3::int, False), (3, False)]" by simp_all
  have e: "mcts_sample_enable (fst (fst sample_run ! 0))"
    "mcts_sample_enable (fst (fst sample_run ! 1))"
    by (simp_all add: sample_run_eq sample_env_eligible sample_env1_eligible)
  note h0 = handoff_once[OF sample_init sample_play_seq k0]
    and h1 = handoff_once[OF sample_init sample_play_seq k1]
  from h0 h1 e
  have old: "count_list (snd (fst sample_run ! 0)) Stats_handoff = 1
      \<and> Stats_handoff \<notin> set (snd (fst sample_run ! 1))
      \<and> first_mcts (fst (fst sample_run ! 0))
      \<and> \<not> first_mcts (fst (fst sample_run ! 1))
      \<and> \<not> first_mcts (snd sample_run)"
    by auto
  from h0 have "play sample_externals 3 False sample_env
      = (case rest_of_call sample_externals 3 False ?b of
           Inl e \<Rightarrow> Inl e
         | Inr (self', evs) \<Rightarrow> Inr (self', Stats_handoff # evs))"
    by (simp add: sample_run_eq sample_env_eligible Let_def)
  then obtain evs where r: "rest_of_call sample_externals 3 False ?b = Inr (sample_env1, evs)"
    unfolding sample_play1 by (auto split: sum.splits)
  have m: "ob_rms (master_game ?a) = 0" "ret_rms (master_game ?a) = 1"
    by (simp_all add: run_master_def sample_externals_def sample_run_trajectory_def
        sample_rollout_def Let_def sample_env_start sample_game_def)
  have g: "ob_rms (mcts_game sample_env) = 2" "ret_rms (mcts_game sample_env) = 3"
    using sample_init_games[OF sample_init] by (simp_all add: sample_config_def)
  from sample_rest_of_call_refs[OF r] m
  have new: "ob_rms (master_game sample_env1) = 0 \<and> ret_rms (master_game sample_env1) = 1
      \<and> ob_rms (mcts_game sample_env1) = 0 \<and> ret_rms (mcts_game sample_env1) = 1"
    by simp
  from old new g e sample_init sample_play_seq show ?thesis by simp
qed

section \<open>Reads of the primary rollout during the search loop\<close>






section \<open>Aggregation of search rollouts\<close>

lemma promote_same: "promote d d = d"
  by (cases d) simp_all

lemma np_convert_same: "arr_dtype a = d \<Longrightarrow> np_convert cast d a = arr_elems a"
  by (simp add: np_convert_def)

text \<open>
  What does hold of a sequence of calls in search mode: when every buffer already has the
  element type of the attribute, the attribute ends up as the concatenation of the
  buffers, in call order, with that element type.
\<close>

lemma aggregate_buffers_same_dtype:
  assumes "mcts_sampling self"
    and "\<forall>b \<in> set bs. arr_dtype (getattr_game b a)
            = data_attr_types (observation_dtype (master_game self)) a"
    and "arr_elems (trajectory self a) = []
         \<or> arr_dtype (trajectory self a)
            = data_attr_types (observation_dtype (master_game self)) a"
    and "bs \<noteq> []"
  shows "trajectory (aggregate_buffers E bs self) a
           = \<lparr>arr_dtype = data_attr_types (observation_dtype (master_game self)) a,
              arr_elems = arr_elems (trajectory self a)
                            @ concat (map (\<lambda>b. arr_elems (getattr_game b a)) bs)\<rparr>"
  using assms
proof (induction bs arbitrary: self)
  case Nil
  then show ?case by simp
next
  case (Cons b bs)
  let ?d = "data_attr_types (observation_dtype (master_game self)) a"
  let ?s1 = "aggregate_mcts_data E (self\<lparr>mcts_game := b\<rparr>)"
  have b: "arr_dtype (getattr_game b a) = ?d" using Cons.prems(2) by simp
  have t1: "trajectory ?s1 a
          = \<lparr>arr_dtype = ?d,
             arr_elems = arr_elems (trajectory self a) @ arr_elems (getattr_game b a)\<rparr>"
    using Cons.prems(1,3) b
    by (auto simp: aggregate_mcts_data_eq new_attr_val_def Let_def np_concatenate_def
        np_asarray_def np_convert_same promote_same)
  have f1: "mcts_sampling ?s1" "master_game ?s1 = master_game self"
    using Cons.prems(1) by (simp_all add: aggregate_mcts_data_eq)
  show ?case
  proof (cases "bs = []")
    case True
    with t1 show ?thesis by simp
  next
    case False
    have "trajectory (aggregate_buffers E bs ?s1) a
        = \<lparr>arr_dtype = data_attr_types (observation_dtype (master_game ?s1)) a,
           arr_elems = arr_elems (trajectory ?s1 a)
                         @ concat (map (\<lambda>b. arr_elems (getattr_game b a)) bs)\<rparr>"
      using Cons.prems(2) False f1 t1 by (intro Cons.IH) simp_all
    then show ?thesis by (simp add: f1 t1)
  qed
qed

text \<open>
  Claim C4 (the code departs from it). After the first non-empty buffer, the attribute is
  extended by \<^verbatim>\<open>np.concatenate\<close> with no element type, so the result takes the common
  type of the accumulated array and the new buffer. Two search rollouts of the sample
  collaborator, of two steps and of one step: the first completes one episode, the second
  none, so its \<open>trajectory_per_episode_rewards\<close> is the empty list. The per-episode and
  per-step rewards end up as 64-bit floats, not the 32-bit floats of the dictionary; the
  values, which the source produces as 32-bit floats, keep their type.
\<close>

theorem aggregate_mcts_data_dtype_drift:
  "data_attr_types (observation_dtype (master_game sample_env)) PerEpisodeRewards = DFloat32
   \<and> trajectory
        (aggregate_buffers sample_externals
           [sample_rollout 2 0 sample_game, sample_rollout 1 0 sample_game]
           ((initialize_episode_data sample_env)\<lparr>mcts_sampling := True\<rparr>))
        PerEpisodeRewards
       = \<lparr>arr_dtype = DFloat64, arr_elems = [ENum 1]\<rparr>
   \<and> trajectory
        (aggregate_buffers sample_externals
           [sample_rollout 2 0 sample_game, sample_rollout 1 0 sample_game]
           ((initialize_episode_data sample_env)\<lparr>mcts_sampling := True\<rparr>))
        PerStepRewards
       = \<lparr>arr_dtype = DFloat64, arr_elems = [ENum 0, ENum 1, ENum 0]\<rparr>
   \<and> trajectory
        (aggregate_buffers sample_externals
           [sample_rollout 2 0 sample_game, sample_rollout 1 0 sample_game]
           ((initialize_episode_data sample_env)\<lparr>mcts_sampling := True\<rparr>))
        Values
       = \<lparr>arr_dtype = DFloat32, arr_elems = [ENum 0, ENum 1, ENum 0]\<rparr>"
proof -
  have u: "[0..<2] = [0, 1]" by code_simp
  have b1: "trajectory_per_episode_rewards (sample_rollout 2 0 sample_game)
              = \<lparr>arr_dtype = DFloat64, arr_elems = [1]\<rparr>"
    "trajectory_per_step_rewards (sample_rollout 2 0 sample_game)
              = \<lparr>arr_dtype = DFloat64, arr_elems = [0, 1]\<rparr>"
    "trajectory_values (sample_rollout 2 0 sample_game)
              = \<lparr>arr_dtype = DFloat32, arr_elems = [0, 1]\<rparr>"
    by (simp_all add: sample_rollout_def np_of_list_def u)
  have b2: "trajectory_per_episode_rewards (sample_rollout (Suc 0) 0 sample_game)
              = \<lparr>arr_dtype = DFloat64, arr_elems = []\<rparr>"
    "trajectory_per_step_rewards (sample_rollout (Suc 0) 0 sample_game)
              = \<lparr>arr_dtype = DFloat64, arr_elems = [0]\<rparr>"
    "trajectory_values (sample_rollout (Suc 0) 0 sample_game)
              = \<lparr>arr_dtype = DFloat32, arr_elems = [0]\<rparr>"
    by (simp_all add: sample_rollout_def np_of_list_def)
  have o: "observation_dtype sample_game = DFloat32"
    by (simp add: sample_game_def)
  show ?thesis
    by (simp add: aggregate_mcts_data_eq new_attr_val_def Let_def initialize_episode_data_def
        py_empty_list_def np_of_list_def np_concatenate_def np_asarray_def np_convert_def
        np_num_def sample_cast sample_env_start o b1 b2)
qed

end
